theory Spec2Isabelle
  imports Main "HOL-Library.Word" "HOL-Library.Multiset"
begin

section \<open>Values shared by the handlers of server.py\<close>

text \<open>
  An instant of time, in microseconds since the epoch (UTC). The source stores
  \<^verbatim>\<open>datetime.now(timezone.utc).isoformat()\<close>: the text of an instant. The model keeps the
  instant the text denotes, so that \<^verbatim>\<open>timedelta\<close> arithmetic and the store's ordering
  by \<^verbatim>\<open>created_at\<close> are arithmetic and ordering of integers.
\<close>

type_synonym datetime = int

definition timedelta_days :: "int \<Rightarrow> int" where
  "timedelta_days n = n * 86400000000"

text \<open>
  What a request ends with when it does not return: an \<^verbatim>\<open>HTTPException\<close> with its status
  code and detail, or an exception of Python that no handler catches (the framework
  answers 500).
\<close>

datatype py_exception = TypeError | ValidationError | BinasciiError

datatype http_error = HTTPException nat string | Unhandled py_exception

text \<open>The body \<^verbatim>\<open>{"success": True}\<close>.\<close>

datatype success = Success

text \<open>The raw content of a file: a list of bytes.\<close>

type_synonym bytes = "8 word list"

section \<open>The document store\<close>

text \<open>
  A collection is the list of its documents in insertion order. \<^verbatim>\<open>find_one\<close> returns the
  first document that matches, \<^verbatim>\<open>insert_one\<close> appends, \<^verbatim>\<open>update_one\<close> rewrites the first
  document that matches and reports how many matched (0 or 1), and
  \<^verbatim>\<open>find(q).sort(key, -1).to_list(n)\<close> returns the first \<open>n\<close> matching documents, greatest
  key first.
\<close>

definition find_one :: "('a \<Rightarrow> bool) \<Rightarrow> 'a list \<Rightarrow> 'a option" where
  "find_one q xs = List.find q xs"

definition insert_one :: "'a \<Rightarrow> 'a list \<Rightarrow> 'a list" where
  "insert_one doc xs = xs @ [doc]"

fun update_one :: "('a \<Rightarrow> bool) \<Rightarrow> ('a \<Rightarrow> 'a) \<Rightarrow> 'a list \<Rightarrow> 'a list \<times> nat" where
  "update_one q upd [] = ([], 0)"
| "update_one q upd (x # xs) =
     (if q x then (upd x # xs, 1)
      else (case update_one q upd xs of (ys, n) \<Rightarrow> (x # ys, n)))"

definition find_many :: "('a \<Rightarrow> bool) \<Rightarrow> 'a list \<Rightarrow> 'a list" where
  "find_many q xs = filter q xs"

definition sort_desc :: "('a \<Rightarrow> int) \<Rightarrow> 'a list \<Rightarrow> 'a list" where
  "sort_desc key xs = rev (sort_key key xs)"

definition to_list :: "nat \<Rightarrow> 'a list \<Rightarrow> 'a list" where
  "to_list n xs = take n xs"

subsection \<open>Documents\<close>

record user_doc =
  u_id :: string
  u_email :: string
  u_password :: string
  u_name :: string
  u_phone :: string
  u_role :: string
  u_created_at :: datetime

record file_doc =
  f_id :: string
  f_filename :: "string option"
  f_data :: string
  f_content_type :: "string option"
  f_uploaded_by :: string
  f_created_at :: datetime

text \<open>
  \<^verbatim>\<open>AdRequestCreate.other_info\<close> is \<^verbatim>\<open>Optional[str]\<close>, and \<^verbatim>\<open>create_ad_request\<close> stores
  it as it came: the stored field is a string or null.
\<close>

record ad_doc =
  ad_id :: string
  ad_client_id :: string
  ad_client_name :: string
  ad_client_email :: string
  ad_location :: string
  ad_product_names :: string
  ad_other_info :: "string option"
  ad_photos :: "string list"
  ad_payment_type :: string
  ad_status :: string
  ad_created_at :: datetime

record payment_doc =
  pay_id :: string
  pay_ad_request_id :: string
  pay_payment_method :: string
  pay_screenshot_url :: string
  pay_status :: string
  pay_created_at :: datetime
  pay_verified_at :: "datetime option"

record subscription_doc =
  sub_id :: string
  sub_client_id :: string
  sub_client_name :: string
  sub_client_email :: string
  sub_start_date :: datetime
  sub_end_date :: datetime
  sub_status :: string
  sub_payment_screenshot :: string
  sub_payment_method :: string
  sub_created_at :: datetime

text \<open>
  A settings document holds the keys that were written to it: the default has both,
  an upsert of \<^verbatim>\<open>update_admin_settings\<close> may create one with a single key.
\<close>

record settings_doc =
  st_sham_cash_qr :: "string option"
  st_syriatel_qr :: "string option"

record db =
  users :: "user_doc list"
  files :: "file_doc list"
  ad_requests :: "ad_doc list"
  payments :: "payment_doc list"
  subscriptions :: "subscription_doc list"
  admin_settings :: "settings_doc list"

section \<open>Identity and access\<close>

text \<open>
  The payload of a token, the dictionary with the keys \<^verbatim>\<open>user_id\<close>, \<^verbatim>\<open>email\<close>,
  \<^verbatim>\<open>role\<close> and \<^verbatim>\<open>exp\<close>: what \<^verbatim>\<open>create_token\<close> signs and what \<^verbatim>\<open>jwt.decode\<close> returns
  to \<^verbatim>\<open>get_current_user\<close>.
\<close>

record token_payload =
  tk_user_id :: string
  tk_email :: string
  tk_role :: string
  tk_exp :: datetime

definition JWT_ALGORITHM :: string where
  "JWT_ALGORITHM = ''HS256''"

text \<open>
  The token library is not part of the repository: \<^verbatim>\<open>jwt.encode\<close> and \<^verbatim>\<open>jwt.decode\<close>
  are parameters, and so is the secret read from the environment. Decoding reads the
  clock (to compare it with \<^verbatim>\<open>exp\<close>) and either returns the payload or raises.
\<close>

datatype jwt_error =
  ExpiredSignatureError | InvalidSignatureError | InvalidAlgorithmError | DecodeError

type_synonym 'tok jwt_encode = "token_payload \<Rightarrow> string \<Rightarrow> string \<Rightarrow> 'tok"

type_synonym 'tok jwt_decode =
  "'tok \<Rightarrow> string \<Rightarrow> string list \<Rightarrow> datetime \<Rightarrow> jwt_error + token_payload"

definition create_token ::
  "'tok jwt_encode \<Rightarrow> string \<Rightarrow> datetime \<Rightarrow> string \<Rightarrow> string \<Rightarrow> string \<Rightarrow> 'tok" where
  "create_token encode JWT_SECRET now uid em rl =
     (let payload = \<lparr>tk_user_id = uid, tk_email = em, tk_role = rl,
                      tk_exp = now + timedelta_days 30\<rparr>
      in encode payload JWT_SECRET JWT_ALGORITHM)"

definition get_current_user ::
  "'tok jwt_decode \<Rightarrow> string \<Rightarrow> datetime \<Rightarrow> 'tok \<Rightarrow> http_error + token_payload" where
  "get_current_user decode JWT_SECRET now credentials =
     (case decode credentials JWT_SECRET [JWT_ALGORITHM] now of
        Inr payload \<Rightarrow> Inr payload
      | Inl e \<Rightarrow> Inl (HTTPException 401 ''Invalid authentication''))"

definition get_admin_user :: "token_payload \<Rightarrow> http_error + token_payload" where
  "get_admin_user current_user =
     (if tk_role current_user \<noteq> ''admin''
      then Inl (HTTPException 403 ''Admin access required'')
      else Inr current_user)"

text \<open>
  What the handlers rely on from the token library. A token decoded with the key and
  the algorithm that signed it, at least a second before its \<^verbatim>\<open>exp\<close> (the library
  keeps \<^verbatim>\<open>exp\<close> in whole seconds), gives back the user id, email and role that were
  signed; from \<^verbatim>\<open>exp\<close> on, decoding raises.
\<close>

definition jwt_contract :: "'tok jwt_encode \<Rightarrow> 'tok jwt_decode \<Rightarrow> bool" where
  "jwt_contract encode decode =
     (\<forall>p k a t.
        (t + 1000000 \<le> tk_exp p \<longrightarrow>
           (\<exists>p'. decode (encode p k a) k [a] t = Inr p' \<and> tk_user_id p' = tk_user_id p
                 \<and> tk_email p' = tk_email p \<and> tk_role p' = tk_role p))
      \<and> (tk_exp p \<le> t \<longrightarrow> (\<exists>e. decode (encode p k a) k [a] t = Inl e)))"

subsection \<open>Registration\<close>

record UserCreate =
  uc_email :: string
  uc_password :: string
  uc_name :: string
  uc_phone :: string

text \<open>The response model \<^verbatim>\<open>User\<close>: it has no password field.\<close>

record User =
  usr_id :: string
  usr_email :: string
  usr_name :: string
  usr_phone :: string
  usr_role :: string
  usr_created_at :: datetime

definition User_of :: "user_doc \<Rightarrow> User" where
  "User_of u = \<lparr>usr_id = u_id u, usr_email = u_email u, usr_name = u_name u,
                usr_phone = u_phone u, usr_role = u_role u,
                usr_created_at = u_created_at u\<rparr>"

text \<open>
  \<^verbatim>\<open>bcrypt.hashpw\<close> and the salt of \<^verbatim>\<open>bcrypt.gensalt()\<close> are parameters; so are the
  identifier drawn by \<^verbatim>\<open>uuid.uuid4()\<close> and the readings of the clock, one for
  \<^verbatim>\<open>created_at\<close> and one, later, inside \<^verbatim>\<open>create_token\<close>.
\<close>

definition hash_password :: "(string \<Rightarrow> string \<Rightarrow> string) \<Rightarrow> string \<Rightarrow> string \<Rightarrow> string" where
  "hash_password hashpw salt password = hashpw password salt"

definition register ::
  "'tok jwt_encode \<Rightarrow> (string \<Rightarrow> string \<Rightarrow> string) \<Rightarrow> string \<Rightarrow> db \<Rightarrow> string \<Rightarrow> string \<Rightarrow>
     datetime \<Rightarrow> datetime \<Rightarrow> UserCreate \<Rightarrow> db \<times> (http_error + 'tok \<times> User)" where
  "register encode hashpw JWT_SECRET d new_id salt now now_token user_data =
     (case find_one (\<lambda>u. u_email u = uc_email user_data) (users d) of
        Some existing \<Rightarrow> (d, Inl (HTTPException 400 ''Email already registered''))
      | None \<Rightarrow>
         (let user_dict = \<lparr>u_id = new_id, u_email = uc_email user_data,
                           u_password = hash_password hashpw salt (uc_password user_data),
                           u_name = uc_name user_data, u_phone = uc_phone user_data,
                           u_role = ''client'', u_created_at = now\<rparr>;
              d1 = d\<lparr>users := insert_one user_dict (users d)\<rparr>;
              token = create_token encode JWT_SECRET now_token
                        (u_id user_dict) (u_email user_dict) (u_role user_dict)
          in (d1, Inr (token, User_of user_dict))))"

section \<open>File store\<close>

text \<open>
  The uploaded file as the framework hands it over: its bytes, and a filename and a
  content type that the request may leave out. \<^verbatim>\<open>base64.b64encode(..).decode('utf-8')\<close>
  and \<^verbatim>\<open>base64.b64decode\<close> are parameters; decoding raises on text that is not base64.
\<close>

record UploadFile =
  up_filename :: "string option"
  up_content_type :: "string option"
  up_contents :: bytes

record Response =
  content :: bytes
  media_type :: "string option"

definition file_url :: "string \<Rightarrow> string" where
  "file_url file_id = ''/api/files/'' @ file_id"

definition upload_file ::
  "(bytes \<Rightarrow> string) \<Rightarrow> db \<Rightarrow> string \<Rightarrow> datetime \<Rightarrow> UploadFile \<Rightarrow> token_payload \<Rightarrow>
     db \<times> string \<times> string" where
  "upload_file b64encode d file_id now file current_user =
     (let contents = up_contents file;
          base64_data = b64encode contents;
          file_doc = \<lparr>f_id = file_id, f_filename = up_filename file, f_data = base64_data,
                      f_content_type = up_content_type file,
                      f_uploaded_by = tk_user_id current_user, f_created_at = now\<rparr>
      in (d\<lparr>files := insert_one file_doc (files d)\<rparr>, file_id, file_url file_id))"

text \<open>
  Every file document has the key \<^verbatim>\<open>content_type\<close> (\<^verbatim>\<open>upload_file\<close> writes it, null
  when the upload names none), so \<^verbatim>\<open>file_doc.get('content_type', ..)\<close> is the stored value.
\<close>

definition get_file ::
  "(string \<Rightarrow> bytes option) \<Rightarrow> db \<Rightarrow> string \<Rightarrow> http_error + Response" where
  "get_file b64decode d file_id =
     (case find_one (\<lambda>f. f_id f = file_id) (files d) of
        None \<Rightarrow> Inl (HTTPException 404 ''File not found'')
      | Some file_doc \<Rightarrow>
         (case b64decode (f_data file_doc) of
            None \<Rightarrow> Inl (Unhandled BinasciiError)
          | Some file_data \<Rightarrow>
              Inr \<lparr>content = file_data, media_type = f_content_type file_doc\<rparr>))"

section \<open>Ad requests\<close>

record AdRequestCreate =
  arc_location :: string
  arc_product_names :: string
  arc_other_info :: "string option"
  arc_payment_type :: string

text \<open>
  The response model \<^verbatim>\<open>AdRequest\<close>. Its \<^verbatim>\<open>other_info\<close> is \<^verbatim>\<open>str\<close>: building the model
  from a document whose \<^verbatim>\<open>other_info\<close> is null raises a validation error.
\<close>

record AdRequest =
  ar_id :: string
  ar_client_id :: string
  ar_client_name :: string
  ar_client_email :: string
  ar_location :: string
  ar_product_names :: string
  ar_other_info :: string
  ar_photos :: "string list"
  ar_payment_type :: string
  ar_status :: string
  ar_created_at :: datetime

definition AdRequest_of :: "ad_doc \<Rightarrow> py_exception + AdRequest" where
  "AdRequest_of ad =
     (case ad_other_info ad of
        None \<Rightarrow> Inl ValidationError
      | Some info \<Rightarrow>
          Inr \<lparr>ar_id = ad_id ad, ar_client_id = ad_client_id ad,
               ar_client_name = ad_client_name ad, ar_client_email = ad_client_email ad,
               ar_location = ad_location ad, ar_product_names = ad_product_names ad,
               ar_other_info = info, ar_photos = ad_photos ad,
               ar_payment_type = ad_payment_type ad, ar_status = ad_status ad,
               ar_created_at = ad_created_at ad\<rparr>)"

text \<open>A list comprehension whose element expression may raise: the first failure ends it.\<close>

fun comprehension :: "('a \<Rightarrow> py_exception + 'b) \<Rightarrow> 'a list \<Rightarrow> py_exception + 'b list" where
  "comprehension f [] = Inr []"
| "comprehension f (x # xs) =
     (case f x of
        Inl e \<Rightarrow> Inl e
      | Inr y \<Rightarrow> (case comprehension f xs of Inl e \<Rightarrow> Inl e | Inr ys \<Rightarrow> Inr (y # ys)))"

definition respond :: "py_exception + 'a \<Rightarrow> http_error + 'a" where
  "respond r = (case r of Inl e \<Rightarrow> Inl (Unhandled e) | Inr v \<Rightarrow> Inr v)"

definition create_ad_request ::
  "db \<Rightarrow> string \<Rightarrow> datetime \<Rightarrow> AdRequestCreate \<Rightarrow> token_payload \<Rightarrow> db \<times> (http_error + AdRequest)" where
  "create_ad_request d new_id now ad_data current_user =
     (case find_one (\<lambda>u. u_id u = tk_user_id current_user) (users d) of
        None \<Rightarrow> (d, Inl (Unhandled TypeError))
      | Some user \<Rightarrow>
         (let ad_dict = \<lparr>ad_id = new_id, ad_client_id = tk_user_id current_user,
                         ad_client_name = u_name user, ad_client_email = u_email user,
                         ad_location = arc_location ad_data,
                         ad_product_names = arc_product_names ad_data,
                         ad_other_info = arc_other_info ad_data, ad_photos = [],
                         ad_payment_type = arc_payment_type ad_data,
                         ad_status = ''pending'', ad_created_at = now\<rparr>
          in (d\<lparr>ad_requests := insert_one ad_dict (ad_requests d)\<rparr>,
              respond (AdRequest_of ad_dict))))"

definition get_ad_requests :: "db \<Rightarrow> token_payload \<Rightarrow> http_error + AdRequest list" where
  "get_ad_requests d current_user =
     (let ads =
        (if tk_role current_user = ''admin''
         then to_list 1000 (sort_desc ad_created_at (find_many (\<lambda>a. True) (ad_requests d)))
         else to_list 1000 (sort_desc ad_created_at
                (find_many (\<lambda>a. ad_client_id a = tk_user_id current_user) (ad_requests d))))
      in respond (comprehension AdRequest_of ads))"

definition get_ad_request :: "db \<Rightarrow> string \<Rightarrow> token_payload \<Rightarrow> http_error + AdRequest" where
  "get_ad_request d ad_id' current_user =
     (let query =
        (if tk_role current_user \<noteq> ''admin''
         then (\<lambda>a. ad_id a = ad_id' \<and> ad_client_id a = tk_user_id current_user)
         else (\<lambda>a. ad_id a = ad_id'))
      in case find_one query (ad_requests d) of
           None \<Rightarrow> Inl (HTTPException 404 ''Ad request not found'')
         | Some ad \<Rightarrow> respond (AdRequest_of ad))"

section \<open>Payments\<close>

text \<open>
  The response model \<^verbatim>\<open>Payment\<close> has the fields and the types of a payment document
  (\<^verbatim>\<open>verified_at\<close> is optional in both), so building it never fails and the model
  returns the document. The same holds of \<^verbatim>\<open>Subscription\<close>.
\<close>

record PaymentCreate =
  pc_ad_request_id :: string
  pc_payment_method :: string

definition create_payment ::
  "db \<Rightarrow> string \<Rightarrow> datetime \<Rightarrow> PaymentCreate \<Rightarrow> token_payload \<Rightarrow> db \<times> (http_error + payment_doc)" where
  "create_payment d new_id now payment_data current_user =
     (case find_one (\<lambda>a. ad_id a = pc_ad_request_id payment_data
                          \<and> ad_client_id a = tk_user_id current_user) (ad_requests d) of
        None \<Rightarrow> (d, Inl (HTTPException 404 ''Ad request not found''))
      | Some ad \<Rightarrow>
         (let payment_dict = \<lparr>pay_id = new_id,
                              pay_ad_request_id = pc_ad_request_id payment_data,
                              pay_payment_method = pc_payment_method payment_data,
                              pay_screenshot_url = [], pay_status = ''pending'',
                              pay_created_at = now, pay_verified_at = None\<rparr>
          in (d\<lparr>payments := insert_one payment_dict (payments d)\<rparr>, Inr payment_dict)))"

definition upload_payment_screenshot ::
  "db \<Rightarrow> string \<Rightarrow> string \<Rightarrow> token_payload \<Rightarrow> db \<times> (http_error + success \<times> string)" where
  "upload_payment_screenshot d payment_id file_id current_user =
     (let screenshot_url = file_url file_id in
      case update_one (\<lambda>p. pay_id p = payment_id)
             (\<lambda>p. p\<lparr>pay_screenshot_url := screenshot_url\<rparr>) (payments d) of
        (ps, matched_count) \<Rightarrow>
          (let d1 = d\<lparr>payments := ps\<rparr> in
           if matched_count = 0 then (d1, Inl (HTTPException 404 ''Payment not found''))
           else (d1, Inr (Success, screenshot_url))))"


definition verify_payment ::
  "db \<Rightarrow> datetime \<Rightarrow> string \<Rightarrow> token_payload \<Rightarrow> db \<times> (http_error + success)" where
  "verify_payment d now payment_id current_user =
     (case get_admin_user current_user of
        Inl e \<Rightarrow> (d, Inl e)
      | Inr admin \<Rightarrow>
         (case find_one (\<lambda>p. pay_id p = payment_id) (payments d) of
            None \<Rightarrow> (d, Inl (HTTPException 404 ''Payment not found''))
          | Some payment \<Rightarrow>
             (case update_one (\<lambda>p. pay_id p = payment_id)
                     (\<lambda>p. p\<lparr>pay_status := ''verified'', pay_verified_at := Some now\<rparr>)
                     (payments d) of
                (ps, n1) \<Rightarrow>
                  (let d1 = d\<lparr>payments := ps\<rparr> in
                   case update_one (\<lambda>a. ad_id a = pay_ad_request_id payment)
                          (\<lambda>a. a\<lparr>ad_status := ''paid''\<rparr>) (ad_requests d1) of
                     (ads, n2) \<Rightarrow> (d1\<lparr>ad_requests := ads\<rparr>, Inr Success)))))"

section \<open>Subscriptions\<close>

text \<open>
  \<^verbatim>\<open>create_subscription\<close> reads the clock twice: \<open>now\<close> is the reading kept in
  \<^verbatim>\<open>start_date\<close>, \<open>now_created\<close> the later one stored as \<^verbatim>\<open>created_at\<close>.
\<close>

definition create_subscription ::
  "db \<Rightarrow> string \<Rightarrow> datetime \<Rightarrow> datetime \<Rightarrow> string \<Rightarrow> token_payload \<Rightarrow>
     db \<times> (http_error + subscription_doc)" where
  "create_subscription d new_id now now_created payment_method current_user =
     (case find_one (\<lambda>u. u_id u = tk_user_id current_user) (users d) of
        None \<Rightarrow> (d, Inl (Unhandled TypeError))
      | Some user \<Rightarrow>
         (let start_date = now;
              end_date = start_date + timedelta_days 30;
              sub_dict = \<lparr>sub_id = new_id, sub_client_id = tk_user_id current_user,
                          sub_client_name = u_name user, sub_client_email = u_email user,
                          sub_start_date = start_date, sub_end_date = end_date,
                          sub_status = ''pending'', sub_payment_screenshot = [],
                          sub_payment_method = payment_method,
                          sub_created_at = now_created\<rparr>
          in (d\<lparr>subscriptions := insert_one sub_dict (subscriptions d)\<rparr>, Inr sub_dict)))"



definition verify_subscription ::
  "db \<Rightarrow> string \<Rightarrow> token_payload \<Rightarrow> db \<times> (http_error + success)" where
  "verify_subscription d sub_id' current_user =
     (case get_admin_user current_user of
        Inl e \<Rightarrow> (d, Inl e)
      | Inr admin \<Rightarrow>
         (case update_one (\<lambda>s. sub_id s = sub_id')
                 (\<lambda>s. s\<lparr>sub_status := ''active''\<rparr>) (subscriptions d) of
            (subs, matched_count) \<Rightarrow>
              (let d1 = d\<lparr>subscriptions := subs\<rparr> in
               if matched_count = 0
               then (d1, Inl (HTTPException 404 ''Subscription not found''))
               else (d1, Inr Success))))"

section \<open>Admin settings\<close>

record AdminSettings =
  sham_cash_qr :: string
  syriatel_qr :: string

text \<open>
  \<^verbatim>\<open>AdminSettings(**settings)\<close>: a key the document lacks takes the default of the
  model, the empty string.
\<close>

definition AdminSettings_of :: "settings_doc \<Rightarrow> AdminSettings" where
  "AdminSettings_of s =
     \<lparr>sham_cash_qr = (case st_sham_cash_qr s of None \<Rightarrow> [] | Some v \<Rightarrow> v),
      syriatel_qr = (case st_syriatel_qr s of None \<Rightarrow> [] | Some v \<Rightarrow> v)\<rparr>"

text \<open>
  \<^verbatim>\<open>if not settings\<close>: true of \<^verbatim>\<open>None\<close> and of the empty dictionary, which is what the
  projection \<^verbatim>\<open>{"_id": 0}\<close> leaves of a document with no key of its own.
\<close>

definition empty_dict :: "settings_doc \<Rightarrow> bool" where
  "empty_dict s = (st_sham_cash_qr s = None \<and> st_syriatel_qr s = None)"

definition get_admin_settings :: "db \<Rightarrow> db \<times> AdminSettings" where
  "get_admin_settings d =
     (let settings = find_one (\<lambda>s. True) (admin_settings d);
          default_settings = \<lparr>st_sham_cash_qr = Some [], st_syriatel_qr = Some []\<rparr>;
          created = (d\<lparr>admin_settings := insert_one default_settings (admin_settings d)\<rparr>,
                     AdminSettings_of default_settings)
      in case settings of
           None \<Rightarrow> created
         | Some s \<Rightarrow> if empty_dict s then created else (d, AdminSettings_of s))"

section \<open>What a listing returns\<close>

text \<open>The documents a response carries: those of the list it returns, none when it fails.\<close>

definition returned :: "http_error + 'a list \<Rightarrow> 'a list" where
  "returned response = (case response of Inl e \<Rightarrow> [] | Inr docs \<Rightarrow> docs)"

text \<open>
  \<open>page\<close> is the newest thousand of \<open>matching\<close>: it has a thousand documents, or all
  of them when there are fewer; each of its documents is one of \<open>matching\<close>, as many
  times at most; it is ordered newest first; and no matching document left out is newer
  than one it has.
\<close>

definition newest_page :: "('a \<Rightarrow> datetime) \<Rightarrow> 'a list \<Rightarrow> 'a list \<Rightarrow> bool" where
  "newest_page key matching page \<longleftrightarrow>
     length page = min 1000 (length matching)
     \<and> mset page \<subseteq># mset matching
     \<and> sorted_wrt (\<lambda>x y. key y \<le> key x) page
     \<and> (\<forall>x \<in> set page. \<forall>y \<in> set matching - set page. key y \<le> key x)"


section \<open>A small store, for instances of the theorems\<close>

text \<open>
  One administrator, two clients; Alice owns an ad request, a payment for it and a
  subscription. A second payment refers to an ad request that is not in the store.
\<close>

definition admin_caller :: token_payload where
  "admin_caller = \<lparr>tk_user_id = ''u-admin'', tk_email = ''admin@x.com'', tk_role = ''admin'', tk_exp = 0\<rparr>"

definition alice :: token_payload where
  "alice = \<lparr>tk_user_id = ''u-alice'', tk_email = ''alice@x.com'', tk_role = ''client'', tk_exp = 0\<rparr>"

definition bob :: token_payload where
  "bob = \<lparr>tk_user_id = ''u-bob'', tk_email = ''bob@x.com'', tk_role = ''client'', tk_exp = 0\<rparr>"

definition alice_doc :: user_doc where
  "alice_doc = \<lparr>u_id = ''u-alice'', u_email = ''alice@x.com'', u_password = ''$2b$hash'',
                 u_name = ''Alice'', u_phone = ''1'', u_role = ''client'', u_created_at = 10\<rparr>"

definition alice_ad :: ad_doc where
  "alice_ad = \<lparr>ad_id = ''ad-1'', ad_client_id = ''u-alice'', ad_client_name = ''Alice'',
                ad_client_email = ''alice@x.com'', ad_location = ''Damascus'',
                ad_product_names = ''soap'', ad_other_info = Some [], ad_photos = [],
                ad_payment_type = ''per-ad'', ad_status = ''pending'', ad_created_at = 20\<rparr>"

definition alice_payment :: payment_doc where
  "alice_payment = \<lparr>pay_id = ''pay-1'', pay_ad_request_id = ''ad-1'',
                     pay_payment_method = ''sham_cash'', pay_screenshot_url = [],
                     pay_status = ''pending'', pay_created_at = 30, pay_verified_at = None\<rparr>"

definition orphan_payment :: payment_doc where
  "orphan_payment = \<lparr>pay_id = ''pay-2'', pay_ad_request_id = ''ad-gone'',
                      pay_payment_method = ''syriatel'', pay_screenshot_url = [],
                      pay_status = ''pending'', pay_created_at = 31, pay_verified_at = None\<rparr>"

definition alice_sub :: subscription_doc where
  "alice_sub = \<lparr>sub_id = ''sub-1'', sub_client_id = ''u-alice'', sub_client_name = ''Alice'',
                 sub_client_email = ''alice@x.com'', sub_start_date = 40,
                 sub_end_date = 40 + timedelta_days 30, sub_status = ''pending'',
                 sub_payment_screenshot = [], sub_payment_method = ''sham_cash'',
                 sub_created_at = 41\<rparr>"

definition shop_db :: db where
  "shop_db = \<lparr>users = [alice_doc], files = [], ad_requests = [alice_ad],
               payments = [alice_payment, orphan_payment], subscriptions = [alice_sub],
               admin_settings = []\<rparr>"

text \<open>
  A symbolic token library: a token is the payload with the key and the algorithm that
  signed it, or text that is no token. As the library does, encoding cuts \<^verbatim>\<open>exp\<close> to
  whole seconds, and decoding refuses a token once the clock has reached \<^verbatim>\<open>exp\<close>.
\<close>

datatype sym_token = Signed token_payload string string | Garbage string

definition sym_encode :: "sym_token jwt_encode" where
  "sym_encode payload key alg =
     Signed (payload\<lparr>tk_exp := (tk_exp payload div 1000000) * 1000000\<rparr>) key alg"

definition sym_decode :: "sym_token jwt_decode" where
  "sym_decode tok key algs now =
     (case tok of
        Garbage t \<Rightarrow> Inl DecodeError
      | Signed payload k alg \<Rightarrow>
          if alg \<notin> set algs then Inl InvalidAlgorithmError
          else if k \<noteq> key then Inl InvalidSignatureError
          else if tk_exp payload \<le> now then Inl ExpiredSignatureError
          else Inr payload)"

definition sym_hashpw :: "string \<Rightarrow> string \<Rightarrow> string" where
  "sym_hashpw password salt = salt @ ''$'' @ rev password"

definition carol_form :: UserCreate where
  "carol_form = \<lparr>uc_email = ''carol@x.com'', uc_password = ''p'', uc_name = ''Carol'',
                  uc_phone = ''3''\<rparr>"

definition alice_form :: UserCreate where
  "alice_form = \<lparr>uc_email = ''alice@x.com'', uc_password = ''q'', uc_name = ''A'',
                  uc_phone = ''1''\<rparr>"

text \<open>
  A base64 codec after RFC 4648, with the standard alphabet and padding: three bytes
  become four characters of six bits each.
\<close>

definition b64_alphabet :: string where
  "b64_alphabet = ''ABCDEFGHIJKLMNOPQRSTUVWXYZabcdefghijklmnopqrstuvwxyz0123456789+/''"

definition b64_char :: "nat \<Rightarrow> char" where
  "b64_char n = b64_alphabet ! n"

fun index_of :: "'a \<Rightarrow> 'a list \<Rightarrow> nat option" where
  "index_of c [] = None"
| "index_of c (x # xs) = (if c = x then Some 0 else map_option Suc (index_of c xs))"

definition b64_value :: "char \<Rightarrow> nat option" where
  "b64_value c = index_of c b64_alphabet"

fun rfc4648_encode :: "bytes \<Rightarrow> string" where
  "rfc4648_encode [] = []"
| "rfc4648_encode [a] =
     [b64_char (unat a div 4), b64_char (unat a mod 4 * 16), CHR ''='', CHR ''='']"
| "rfc4648_encode [a, b] =
     [b64_char (unat a div 4), b64_char (unat a mod 4 * 16 + unat b div 16),
      b64_char (unat b mod 16 * 4), CHR ''='']"
| "rfc4648_encode (a # b # c # rest) =
     [b64_char (unat a div 4), b64_char (unat a mod 4 * 16 + unat b div 16),
      b64_char (unat b mod 16 * 4 + unat c div 64), b64_char (unat c mod 64)]
     @ rfc4648_encode rest"

fun rfc4648_decode :: "string \<Rightarrow> bytes option" where
  "rfc4648_decode [] = Some []"
| "rfc4648_decode (w # x # y # z # rest) =
     (case (b64_value w, b64_value x) of
        (Some i, Some j) \<Rightarrow>
          (if y = CHR ''='' \<and> z = CHR ''='' \<and> rest = []
           then Some [of_nat (i * 4 + j div 16)]
           else
             (case b64_value y of
                None \<Rightarrow> None
              | Some k \<Rightarrow>
                  (if z = CHR ''='' \<and> rest = []
                   then Some [of_nat (i * 4 + j div 16), of_nat (j mod 16 * 16 + k div 4)]
                   else
                     (case b64_value z of
                        None \<Rightarrow> None
                      | Some l \<Rightarrow>
                          (case rfc4648_decode rest of
                             None \<Rightarrow> None
                           | Some bs \<Rightarrow>
                               Some (of_nat (i * 4 + j div 16)
                                     # of_nat (j mod 16 * 16 + k div 4)
                                     # of_nat (k mod 4 * 64 + l) # bs))))))
      | _ \<Rightarrow> None)"
| "rfc4648_decode cs = None"

definition logo_png :: UploadFile where
  "logo_png = \<lparr>up_filename = Some ''logo.png'', up_content_type = Some ''image/png'',
                up_contents = [0x4D, 0x61, 0x6E, 0xFF]\<rparr>"

text \<open>
  A store in which Alice owns 1001 ad requests, created one microsecond apart, the
  first of them the oldest. Their ids are written as \<^verbatim>\<open>uuid4\<close> writes ids.
\<close>

definition hex_digit :: "nat \<Rightarrow> char" where
  "hex_digit n = ''0123456789abcdef'' ! n"

definition hex4 :: "nat \<Rightarrow> string" where
  "hex4 n = [hex_digit (n div 4096 mod 16), hex_digit (n div 256 mod 16),
             hex_digit (n div 16 mod 16), hex_digit (n mod 16)]"

definition uuid_of :: "nat \<Rightarrow> string" where
  "uuid_of n = ''00000000-0000-4000-8000-00000000'' @ hex4 n"

definition campaign_ad :: "nat \<Rightarrow> ad_doc" where
  "campaign_ad n = \<lparr>ad_id = uuid_of n, ad_client_id = ''u-alice'', ad_client_name = ''Alice'',
                     ad_client_email = ''alice@x.com'', ad_location = ''Aleppo'',
                     ad_product_names = ''tea'', ad_other_info = Some [], ad_photos = [],
                     ad_payment_type = ''subscription'', ad_status = ''pending'',
                     ad_created_at = int n\<rparr>"

definition campaign_db :: db where
  "campaign_db = \<lparr>users = [alice_doc], files = [], ad_requests = map campaign_ad [0..<1001],
                   payments = [], subscriptions = [], admin_settings = []\<rparr>"

definition alice_ad_model :: AdRequest where
  "alice_ad_model = \<lparr>ar_id = ''ad-1'', ar_client_id = ''u-alice'', ar_client_name = ''Alice'',
                      ar_client_email = ''alice@x.com'', ar_location = ''Damascus'',
                      ar_product_names = ''soap'', ar_other_info = [], ar_photos = [],
                      ar_payment_type = ''per-ad'', ar_status = ''pending'', ar_created_at = 20\<rparr>"




text \<open>
  The small store with a second ad request of Alice, created with null notes.
\<close>

definition alice_null_ad :: ad_doc where
  "alice_null_ad = \<lparr>ad_id = ''ad-2'', ad_client_id = ''u-alice'', ad_client_name = ''Alice'',
                     ad_client_email = ''alice@x.com'', ad_location = ''Homs'',
                     ad_product_names = ''olives'', ad_other_info = None, ad_photos = [],
                     ad_payment_type = ''per-ad'', ad_status = ''pending'', ad_created_at = 25\<rparr>"

definition mixed_db :: db where
  "mixed_db = shop_db\<lparr>ad_requests := [alice_ad, alice_null_ad]\<rparr>"

section \<open>Properties of the store\<close>

lemma update_one_absent:
  "\<forall>x \<in> set xs. \<not> q x \<Longrightarrow> update_one q upd xs = (xs, 0)"
  by (induction xs) auto

lemma map_upd_absent:
  "\<forall>z \<in> set ys. k z \<noteq> v \<Longrightarrow> map (\<lambda>z. if k z = v then upd z else z) ys = ys"
  by (induction ys) auto

lemma update_one_distinct_key:
  "distinct (map k xs) \<Longrightarrow> v \<in> k ` set xs \<Longrightarrow>
     update_one (\<lambda>y. k y = v) upd xs = (map (\<lambda>y. if k y = v then upd y else y) xs, 1)"
proof (induction xs)
  case Nil
  then show ?case by simp
next
  case (Cons y ys)
  show ?case
  proof (cases "k y = v")
    case True
    from Cons.prems(1) have "k y \<notin> k ` set ys" by simp
    with True have "\<forall>z \<in> set ys. k z \<noteq> v" by blast
    then have "map (\<lambda>z. if k z = v then upd z else z) ys = ys"
      by (rule map_upd_absent)
    with True show ?thesis by simp
  next
    case False
    with Cons.prems have "v \<in> k ` set ys" and "distinct (map k ys)" by auto
    then have "update_one (\<lambda>y. k y = v) upd ys
                 = (map (\<lambda>y. if k y = v then upd y else y) ys, 1)"
      by (rule Cons.IH[rotated])
    with False show ?thesis by simp
  qed
qed

lemma find_one_distinct:
  assumes "distinct (map k xs)" and "x \<in> set xs"
  shows "find_one (\<lambda>y. k y = k x) xs = Some x"
  using assms unfolding find_one_def
proof (induction xs)
  case Nil
  then show ?case by simp
next
  case (Cons y ys)
  then show ?case
    by (cases "k y = k x") (auto simp: image_iff)
qed

lemma find_one_map_upd:
  assumes "distinct (map k xs)" and "x \<in> set xs" and "\<And>y. k (upd y) = k y"
  shows "find_one (\<lambda>y. k y = k x) (map (\<lambda>y. if k y = k x then upd y else y) xs) = Some (upd x)"
  using assms(1,2) unfolding find_one_def
proof (induction xs)
  case Nil
  then show ?case by simp
next
  case (Cons y ys)
  then show ?case
    by (cases "k y = k x") (auto simp: image_iff assms(3))
qed

lemma find_one_None_iff: "find_one q xs = None \<longleftrightarrow> (\<forall>x \<in> set xs. \<not> q x)"
  by (auto simp: find_one_def find_None_iff)

section \<open>Payment verification\<close>

text \<open>
  C1. For every payment \<open>p\<close> of the store, \<^verbatim>\<open>verify_payment\<close> called with \<open>p\<close>'s id by
  an administrator reports success; afterwards the store's payment with that id is \<open>p\<close>
  with status \<^verbatim>\<open>verified\<close> and a verification time that is not null, and the ad request
  with the id \<open>p\<close> refers to, when the store has one, is that ad request with status
  \<^verbatim>\<open>paid\<close>. Identifiers are drawn by \<^verbatim>\<open>uuid4\<close>: no two documents of a collection share
  one.
\<close>

theorem verify_payment_cascade:
  assumes admin: "tk_role current_user = ''admin''"
    and p: "p \<in> set (payments d)"
    and ids: "distinct (map pay_id (payments d))"
  shows "snd (verify_payment d now (pay_id p) current_user) = Inr Success
    \<and> find_one (\<lambda>x. pay_id x = pay_id p) (payments (fst (verify_payment d now (pay_id p) current_user)))
        = Some (p\<lparr>pay_status := ''verified'', pay_verified_at := Some now\<rparr>)
    \<and> (\<forall>a \<in> set (ad_requests d).
          distinct (map ad_id (ad_requests d)) \<longrightarrow> ad_id a = pay_ad_request_id p \<longrightarrow>
          find_one (\<lambda>x. ad_id x = ad_id a) (ad_requests (fst (verify_payment d now (pay_id p) current_user)))
            = Some (a\<lparr>ad_status := ''paid''\<rparr>))"
proof -
  let ?upd = "\<lambda>x. x\<lparr>pay_status := ''verified'', pay_verified_at := Some now\<rparr>"
  let ?ps = "map (\<lambda>x. if pay_id x = pay_id p then ?upd x else x) (payments d)"
  let ?r = "verify_payment d now (pay_id p) current_user"
  have found: "find_one (\<lambda>x. pay_id x = pay_id p) (payments d) = Some p"
    using ids p by (rule find_one_distinct)
  have upd: "update_one (\<lambda>x. pay_id x = pay_id p) ?upd (payments d) = (?ps, 1)"
    using ids p by (intro update_one_distinct_key) auto
  obtain ads n where cascade:
    "update_one (\<lambda>a. ad_id a = pay_ad_request_id p) (\<lambda>a. a\<lparr>ad_status := ''paid''\<rparr>) (ad_requests d) = (ads, n)"
    by (cases "update_one (\<lambda>a. ad_id a = pay_ad_request_id p) (\<lambda>a. a\<lparr>ad_status := ''paid''\<rparr>) (ad_requests d)")
  have r: "?r = (d\<lparr>payments := ?ps, ad_requests := ads\<rparr>, Inr Success)"
    using admin found upd cascade by (simp add: verify_payment_def get_admin_user_def)
  have "find_one (\<lambda>x. pay_id x = pay_id p) ?ps = Some (?upd p)"
    using ids p by (rule find_one_map_upd) simp
  moreover have "find_one (\<lambda>x. ad_id x = ad_id a) ads = Some (a\<lparr>ad_status := ''paid''\<rparr>)"
    if a: "a \<in> set (ad_requests d)" and aids: "distinct (map ad_id (ad_requests d))"
      and ref: "ad_id a = pay_ad_request_id p" for a
  proof -
    have "update_one (\<lambda>x. ad_id x = ad_id a) (\<lambda>a. a\<lparr>ad_status := ''paid''\<rparr>) (ad_requests d)
            = (map (\<lambda>x. if ad_id x = ad_id a then x\<lparr>ad_status := ''paid''\<rparr> else x) (ad_requests d), 1)"
      using aids a by (intro update_one_distinct_key) auto
    with cascade ref have "ads = map (\<lambda>x. if ad_id x = ad_id a then x\<lparr>ad_status := ''paid''\<rparr> else x) (ad_requests d)"
      by simp
    moreover have "find_one (\<lambda>x. ad_id x = ad_id a)
        (map (\<lambda>x. if ad_id x = ad_id a then x\<lparr>ad_status := ''paid''\<rparr> else x) (ad_requests d))
        = Some (a\<lparr>ad_status := ''paid''\<rparr>)"
      using aids a by (rule find_one_map_upd) simp
    ultimately show ?thesis by simp
  qed
  ultimately show ?thesis
    unfolding r by simp
qed

theorem verify_payment_cascade_witness:
  "tk_role admin_caller = ''admin'' \<and> alice_payment \<in> set (payments shop_db)
   \<and> alice_ad \<in> set (ad_requests shop_db) \<and> ad_id alice_ad = pay_ad_request_id alice_payment
   \<and> snd (verify_payment shop_db 50 (pay_id alice_payment) admin_caller) = Inr Success
   \<and> find_one (\<lambda>x. pay_id x = pay_id alice_payment)
        (payments (fst (verify_payment shop_db 50 (pay_id alice_payment) admin_caller)))
       = Some (alice_payment\<lparr>pay_status := ''verified'', pay_verified_at := Some 50\<rparr>)
   \<and> find_one (\<lambda>x. ad_id x = ad_id alice_ad)
        (ad_requests (fst (verify_payment shop_db 50 (pay_id alice_payment) admin_caller)))
       = Some (alice_ad\<lparr>ad_status := ''paid''\<rparr>)"
proof -
  have h1: "tk_role admin_caller = ''admin''" by (simp add: admin_caller_def)
  have h2: "alice_payment \<in> set (payments shop_db)" by (simp add: shop_db_def)
  have h3: "distinct (map pay_id (payments shop_db))"
    by (simp add: shop_db_def alice_payment_def orphan_payment_def)
  have a1: "alice_ad \<in> set (ad_requests shop_db)" by (simp add: shop_db_def)
  have a2: "distinct (map ad_id (ad_requests shop_db))" by (simp add: shop_db_def)
  have a3: "ad_id alice_ad = pay_ad_request_id alice_payment"
    by (simp add: alice_ad_def alice_payment_def)
  from verify_payment_cascade [OF h1 h2 h3, of 50] a1 a2 a3 h1 h2
  show ?thesis by blast
qed

text \<open>
  C10. For every payment \<open>p\<close> of the store whose \<^verbatim>\<open>ad_request_id\<close> is the id of no ad
  request of the store, \<^verbatim>\<open>verify_payment\<close> called by an administrator still reports
  success and leaves \<open>p\<close> verified with a verification time; the second write matches
  no document (its matched count is 0), so the ad requests are what they were, and the
  write to the payment stays.
\<close>

theorem verify_payment_dangling_reference:
  assumes admin: "tk_role current_user = ''admin''"
    and p: "p \<in> set (payments d)"
    and ids: "distinct (map pay_id (payments d))"
    and dangling: "pay_ad_request_id p \<notin> ad_id ` set (ad_requests d)"
  shows "snd (verify_payment d now (pay_id p) current_user) = Inr Success
    \<and> find_one (\<lambda>x. pay_id x = pay_id p) (payments (fst (verify_payment d now (pay_id p) current_user)))
        = Some (p\<lparr>pay_status := ''verified'', pay_verified_at := Some now\<rparr>)
    \<and> snd (update_one (\<lambda>a. ad_id a = pay_ad_request_id p) (\<lambda>a. a\<lparr>ad_status := ''paid''\<rparr>)
             (ad_requests d)) = 0
    \<and> ad_requests (fst (verify_payment d now (pay_id p) current_user)) = ad_requests d"
proof -
  let ?upd = "\<lambda>x. x\<lparr>pay_status := ''verified'', pay_verified_at := Some now\<rparr>"
  let ?ps = "map (\<lambda>x. if pay_id x = pay_id p then ?upd x else x) (payments d)"
  have found: "find_one (\<lambda>x. pay_id x = pay_id p) (payments d) = Some p"
    using ids p by (rule find_one_distinct)
  have upd: "update_one (\<lambda>x. pay_id x = pay_id p) ?upd (payments d) = (?ps, 1)"
    using ids p by (intro update_one_distinct_key) auto
  from dangling have "\<forall>a \<in> set (ad_requests d). \<not> ad_id a = pay_ad_request_id p"
    by (auto simp: image_iff)
  then have cascade: "update_one (\<lambda>a. ad_id a = pay_ad_request_id p)
      (\<lambda>a. a\<lparr>ad_status := ''paid''\<rparr>) (ad_requests d) = (ad_requests d, 0)"
    by (rule update_one_absent)
  have r: "verify_payment d now (pay_id p) current_user = (d\<lparr>payments := ?ps\<rparr>, Inr Success)"
    using admin found upd cascade by (simp add: verify_payment_def get_admin_user_def)
  have "find_one (\<lambda>x. pay_id x = pay_id p) ?ps = Some (?upd p)"
    using ids p by (rule find_one_map_upd) simp
  with cascade show ?thesis
    unfolding r by simp
qed

theorem verify_payment_dangling_reference_witness:
  "tk_role admin_caller = ''admin'' \<and> orphan_payment \<in> set (payments shop_db)
   \<and> pay_ad_request_id orphan_payment \<notin> ad_id ` set (ad_requests shop_db)
   \<and> snd (verify_payment shop_db 50 (pay_id orphan_payment) admin_caller) = Inr Success
   \<and> find_one (\<lambda>x. pay_id x = pay_id orphan_payment)
        (payments (fst (verify_payment shop_db 50 (pay_id orphan_payment) admin_caller)))
       = Some (orphan_payment\<lparr>pay_status := ''verified'', pay_verified_at := Some 50\<rparr>)
   \<and> ad_requests (fst (verify_payment shop_db 50 (pay_id orphan_payment) admin_caller))
       = ad_requests shop_db"
proof -
  have h1: "tk_role admin_caller = ''admin''" by (simp add: admin_caller_def)
  have h2: "orphan_payment \<in> set (payments shop_db)" by (simp add: shop_db_def)
  have h3: "distinct (map pay_id (payments shop_db))"
    by (simp add: shop_db_def alice_payment_def orphan_payment_def)
  have h4: "pay_ad_request_id orphan_payment \<notin> ad_id ` set (ad_requests shop_db)"
    by (simp add: shop_db_def orphan_payment_def alice_ad_def)
  from verify_payment_dangling_reference [OF h1 h2 h3 h4, of 50] h1 h2 h4
  show ?thesis by simp
qed

section \<open>Payment screenshots\<close>

text \<open>
  C5. For every payment \<open>p\<close> of the store and every caller that passed authentication,
  \<^verbatim>\<open>upload_payment_screenshot\<close> succeeds and leaves \<open>p\<close> with the screenshot URL
  \<^verbatim>\<open>/api/files/\<close> followed by the file id. The caller is not looked at: any two callers
  get the same response and the same store.
\<close>

theorem upload_payment_screenshot_any_caller:
  assumes p: "p \<in> set (payments d)"
    and ids: "distinct (map pay_id (payments d))"
  shows "snd (upload_payment_screenshot d (pay_id p) file_id current_user)
           = Inr (Success, ''/api/files/'' @ file_id)
    \<and> find_one (\<lambda>x. pay_id x = pay_id p)
          (payments (fst (upload_payment_screenshot d (pay_id p) file_id current_user)))
        = Some (p\<lparr>pay_screenshot_url := ''/api/files/'' @ file_id\<rparr>)
    \<and> upload_payment_screenshot d (pay_id p) file_id current_user
        = upload_payment_screenshot d (pay_id p) file_id other_user"
proof -
  let ?url = "''/api/files/'' @ file_id"
  let ?ps = "map (\<lambda>x. if pay_id x = pay_id p then x\<lparr>pay_screenshot_url := ?url\<rparr> else x) (payments d)"
  have upd: "update_one (\<lambda>x. pay_id x = pay_id p) (\<lambda>x. x\<lparr>pay_screenshot_url := ?url\<rparr>) (payments d)
               = (?ps, 1)"
    using ids p by (intro update_one_distinct_key) auto
  have r: "upload_payment_screenshot d (pay_id p) file_id u = (d\<lparr>payments := ?ps\<rparr>, Inr (Success, ?url))"
    for u
    using upd by (simp add: upload_payment_screenshot_def file_url_def)
  have "find_one (\<lambda>x. pay_id x = pay_id p) ?ps = Some (p\<lparr>pay_screenshot_url := ?url\<rparr>)"
    using ids p by (rule find_one_map_upd) simp
  then show ?thesis
    unfolding r by simp
qed

theorem upload_payment_screenshot_any_caller_witness:
  "alice_payment \<in> set (payments shop_db) \<and> tk_user_id bob \<noteq> ad_client_id alice_ad
   \<and> pay_ad_request_id alice_payment = ad_id alice_ad
   \<and> snd (upload_payment_screenshot shop_db (pay_id alice_payment) ''f-9'' bob)
        = Inr (Success, ''/api/files/f-9'')
   \<and> find_one (\<lambda>x. pay_id x = pay_id alice_payment)
        (payments (fst (upload_payment_screenshot shop_db (pay_id alice_payment) ''f-9'' bob)))
       = Some (alice_payment\<lparr>pay_screenshot_url := ''/api/files/f-9''\<rparr>)"
proof -
  have h2: "alice_payment \<in> set (payments shop_db)" by (simp add: shop_db_def)
  have h3: "distinct (map pay_id (payments shop_db))"
    by (simp add: shop_db_def alice_payment_def orphan_payment_def)
  have other: "tk_user_id bob \<noteq> ad_client_id alice_ad"
    by (simp add: bob_def alice_ad_def)
  have ref: "pay_ad_request_id alice_payment = ad_id alice_ad"
    by (simp add: alice_payment_def alice_ad_def)
  from upload_payment_screenshot_any_caller [OF h2 h3, of "''f-9''" bob] h2 other ref
  show ?thesis by simp
qed

section \<open>Tokens\<close>

lemma sym_jwt_contract: "jwt_contract sym_encode sym_decode"
  unfolding jwt_contract_def
proof (intro allI conjI impI)
  fix p :: token_payload and k a :: string and t :: int
  assume "t + 1000000 \<le> tk_exp p"
  then have "t < tk_exp p div 1000000 * 1000000" by linarith
  then show "\<exists>p'. sym_decode (sym_encode p k a) k [a] t = Inr p' \<and> tk_user_id p' = tk_user_id p
                 \<and> tk_email p' = tk_email p \<and> tk_role p' = tk_role p"
    by (simp add: sym_decode_def sym_encode_def)
next
  fix p :: token_payload and k a :: string and t :: int
  assume "tk_exp p \<le> t"
  moreover have "tk_exp p div 1000000 * 1000000 \<le> tk_exp p" by linarith
  ultimately show "\<exists>e. sym_decode (sym_encode p k a) k [a] t = Inl e"
    by (simp add: sym_decode_def sym_encode_def)
qed

text \<open>
  C3. With a token library that keeps its contract, a token made by \<^verbatim>\<open>create_token\<close> for
  a user id, an email and a role, presented to \<^verbatim>\<open>get_current_user\<close> before it expires
  (30 days after it was made), yields a payload with exactly that user id, email and
  role; presented at or after its expiry it is refused with status 401; and whatever
  token the library refuses to decode (expired, malformed, wrongly signed) is refused
  with status 401.
\<close>

theorem token_round_trip:
  assumes lib: "jwt_contract encode decode"
  shows "(t + 1000000 \<le> now + timedelta_days 30 \<longrightarrow>
            (\<exists>p'. get_current_user decode secret t (create_token encode secret now uid em rl) = Inr p'
                  \<and> tk_user_id p' = uid \<and> tk_email p' = em \<and> tk_role p' = rl))
       \<and> (now + timedelta_days 30 \<le> t \<longrightarrow>
            get_current_user decode secret t (create_token encode secret now uid em rl)
              = Inl (HTTPException 401 ''Invalid authentication''))
       \<and> (\<forall>tok e. decode tok secret [JWT_ALGORITHM] t = Inl e \<longrightarrow>
            get_current_user decode secret t tok = Inl (HTTPException 401 ''Invalid authentication''))"
proof (intro conjI impI allI)
  let ?payload = "\<lparr>tk_user_id = uid, tk_email = em, tk_role = rl, tk_exp = now + timedelta_days 30\<rparr>"
  have tok: "create_token encode secret now uid em rl = encode ?payload secret JWT_ALGORITHM"
    by (simp add: create_token_def)
  {
    assume "t + 1000000 \<le> now + timedelta_days 30"
    then have "t + 1000000 \<le> tk_exp ?payload" by simp
    with lib obtain p' where "decode (encode ?payload secret JWT_ALGORITHM) secret [JWT_ALGORITHM] t = Inr p'"
      and "tk_user_id p' = tk_user_id ?payload" and "tk_email p' = tk_email ?payload"
      and "tk_role p' = tk_role ?payload"
      unfolding jwt_contract_def by blast
    then show "\<exists>p'. get_current_user decode secret t (create_token encode secret now uid em rl) = Inr p'
                  \<and> tk_user_id p' = uid \<and> tk_email p' = em \<and> tk_role p' = rl"
      unfolding tok by (simp add: get_current_user_def)
  }
  {
    assume "now + timedelta_days 30 \<le> t"
    then have "tk_exp ?payload \<le> t" by simp
    with lib obtain e where "decode (encode ?payload secret JWT_ALGORITHM) secret [JWT_ALGORITHM] t = Inl e"
      unfolding jwt_contract_def by blast
    then show "get_current_user decode secret t (create_token encode secret now uid em rl)
              = Inl (HTTPException 401 ''Invalid authentication'')"
      unfolding tok by (simp add: get_current_user_def)
  }
  {
    fix tok e
    assume "decode tok secret [JWT_ALGORITHM] t = Inl e"
    then show "get_current_user decode secret t tok = Inl (HTTPException 401 ''Invalid authentication'')"
      by (simp add: get_current_user_def)
  }
qed

theorem token_round_trip_witness:
  "jwt_contract sym_encode sym_decode
   \<and> get_current_user sym_decode ''s3cret'' 5000000
        (create_token sym_encode ''s3cret'' 1500000 ''u-alice'' ''alice@x.com'' ''client'')
       = Inr \<lparr>tk_user_id = ''u-alice'', tk_email = ''alice@x.com'', tk_role = ''client'',
              tk_exp = 2592001000000\<rparr>
   \<and> get_current_user sym_decode ''s3cret'' (1500000 + timedelta_days 30)
        (create_token sym_encode ''s3cret'' 1500000 ''u-alice'' ''alice@x.com'' ''client'')
       = Inl (HTTPException 401 ''Invalid authentication'')
   \<and> sym_decode (Garbage ''abc'') ''s3cret'' [JWT_ALGORITHM] 5000000 = Inl DecodeError
   \<and> get_current_user sym_decode ''s3cret'' 5000000 (Garbage ''abc'')
       = Inl (HTTPException 401 ''Invalid authentication'')"
proof -
  note rt = token_round_trip [OF sym_jwt_contract, of _ 1500000 "''s3cret''" "''u-alice''" "''alice@x.com''" "''client''"]
  have fresh: "get_current_user sym_decode ''s3cret'' 5000000
        (create_token sym_encode ''s3cret'' 1500000 ''u-alice'' ''alice@x.com'' ''client'')
       = Inr \<lparr>tk_user_id = ''u-alice'', tk_email = ''alice@x.com'', tk_role = ''client'',
              tk_exp = 2592001000000\<rparr>"
    using rt [of 5000000]
    by (simp add: get_current_user_def create_token_def sym_encode_def sym_decode_def
        timedelta_days_def JWT_ALGORITHM_def)
  have expired: "get_current_user sym_decode ''s3cret'' (1500000 + timedelta_days 30)
        (create_token sym_encode ''s3cret'' 1500000 ''u-alice'' ''alice@x.com'' ''client'')
       = Inl (HTTPException 401 ''Invalid authentication'')"
    using rt [of "1500000 + timedelta_days 30"] by simp
  have garbage: "sym_decode (Garbage ''abc'') ''s3cret'' [JWT_ALGORITHM] 5000000 = Inl DecodeError"
    by (simp add: sym_decode_def)
  with rt [of 5000000]
  have "get_current_user sym_decode ''s3cret'' 5000000 (Garbage ''abc'')
       = Inl (HTTPException 401 ''Invalid authentication'')"
    by blast
  with fresh expired garbage sym_jwt_contract show ?thesis by simp
qed

section \<open>Registration\<close>

lemma find_one_Some_iff_ex: "(\<exists>x. find_one q xs = Some x) \<longleftrightarrow> (\<exists>x \<in> set xs. q x)"
proof -
  have "find_one q xs \<noteq> None \<longleftrightarrow> (\<exists>x \<in> set xs. q x)"
    by (simp add: find_one_None_iff)
  then show ?thesis by simp
qed

text \<open>
  C2. When some user of the store has the email of the request, \<^verbatim>\<open>register\<close> fails with
  status 400 and the store is unchanged. When none has, it appends one user with that
  email, the hashed password and role \<^verbatim>\<open>client\<close>, and returns the token signed for the
  new id, the email and the role \<^verbatim>\<open>client\<close> together with the user as a \<^verbatim>\<open>User\<close>
  model, which has no password field.
\<close>

theorem register_unique_email:
  "(uc_email user_data \<in> u_email ` set (users d) \<longrightarrow>
      register encode hashpw secret d new_id salt now now_token user_data
        = (d, Inl (HTTPException 400 ''Email already registered'')))
 \<and> (uc_email user_data \<notin> u_email ` set (users d) \<longrightarrow>
      register encode hashpw secret d new_id salt now now_token user_data
        = (d\<lparr>users := users d @
               [\<lparr>u_id = new_id, u_email = uc_email user_data,
                 u_password = hashpw (uc_password user_data) salt,
                 u_name = uc_name user_data, u_phone = uc_phone user_data,
                 u_role = ''client'', u_created_at = now\<rparr>]\<rparr>,
           Inr (encode \<lparr>tk_user_id = new_id, tk_email = uc_email user_data, tk_role = ''client'',
                        tk_exp = now_token + timedelta_days 30\<rparr> secret ''HS256'',
                \<lparr>usr_id = new_id, usr_email = uc_email user_data, usr_name = uc_name user_data,
                 usr_phone = uc_phone user_data, usr_role = ''client'',
                 usr_created_at = now\<rparr>)))"
proof (intro conjI impI)
  assume "uc_email user_data \<in> u_email ` set (users d)"
  then have "\<exists>u \<in> set (users d). u_email u = uc_email user_data" by auto
  then obtain existing where "find_one (\<lambda>u. u_email u = uc_email user_data) (users d) = Some existing"
    using find_one_Some_iff_ex [of "\<lambda>u. u_email u = uc_email user_data" "users d"] by blast
  then show "register encode hashpw secret d new_id salt now now_token user_data
        = (d, Inl (HTTPException 400 ''Email already registered''))"
    by (simp add: register_def)
next
  assume "uc_email user_data \<notin> u_email ` set (users d)"
  then have "\<forall>u \<in> set (users d). \<not> u_email u = uc_email user_data" by (auto simp: image_iff)
  then have "find_one (\<lambda>u. u_email u = uc_email user_data) (users d) = None"
    by (simp add: find_one_None_iff)
  then show "register encode hashpw secret d new_id salt now now_token user_data
        = (d\<lparr>users := users d @
               [\<lparr>u_id = new_id, u_email = uc_email user_data,
                 u_password = hashpw (uc_password user_data) salt,
                 u_name = uc_name user_data, u_phone = uc_phone user_data,
                 u_role = ''client'', u_created_at = now\<rparr>]\<rparr>,
           Inr (encode \<lparr>tk_user_id = new_id, tk_email = uc_email user_data, tk_role = ''client'',
                        tk_exp = now_token + timedelta_days 30\<rparr> secret ''HS256'',
                \<lparr>usr_id = new_id, usr_email = uc_email user_data, usr_name = uc_name user_data,
                 usr_phone = uc_phone user_data, usr_role = ''client'',
                 usr_created_at = now\<rparr>))"
    by (simp add: register_def insert_one_def hash_password_def create_token_def User_of_def
        JWT_ALGORITHM_def)
qed

theorem register_unique_email_witness:
  "uc_email alice_form \<in> u_email ` set (users shop_db)
   \<and> register sym_encode sym_hashpw ''s3cret'' shop_db ''u-new'' ''salt'' 60 61 alice_form
       = (shop_db, Inl (HTTPException 400 ''Email already registered''))
   \<and> uc_email carol_form \<notin> u_email ` set (users shop_db)
   \<and> users (fst (register sym_encode sym_hashpw ''s3cret'' shop_db ''u-carol'' ''salt'' 60 61 carol_form))
       = [alice_doc,
          \<lparr>u_id = ''u-carol'', u_email = ''carol@x.com'', u_password = ''salt$p'',
           u_name = ''Carol'', u_phone = ''3'', u_role = ''client'', u_created_at = 60\<rparr>]
   \<and> snd (register sym_encode sym_hashpw ''s3cret'' shop_db ''u-carol'' ''salt'' 60 61 carol_form)
       = Inr (Signed \<lparr>tk_user_id = ''u-carol'', tk_email = ''carol@x.com'', tk_role = ''client'',
                      tk_exp = 2592000000000\<rparr> ''s3cret'' ''HS256'',
              \<lparr>usr_id = ''u-carol'', usr_email = ''carol@x.com'', usr_name = ''Carol'',
               usr_phone = ''3'', usr_role = ''client'', usr_created_at = 60\<rparr>)"
proof -
  have taken: "uc_email alice_form \<in> u_email ` set (users shop_db)"
    by (simp add: alice_form_def shop_db_def alice_doc_def)
  have free: "uc_email carol_form \<notin> u_email ` set (users shop_db)"
    by (simp add: carol_form_def shop_db_def alice_doc_def)
  from taken register_unique_email [of alice_form shop_db sym_encode sym_hashpw "''s3cret''" "''u-new''" "''salt''" 60 61]
  have first: "register sym_encode sym_hashpw ''s3cret'' shop_db ''u-new'' ''salt'' 60 61 alice_form
       = (shop_db, Inl (HTTPException 400 ''Email already registered''))"
    by blast
  from free register_unique_email [of carol_form shop_db sym_encode sym_hashpw "''s3cret''" "''u-carol''" "''salt''" 60 61]
  have second: "register sym_encode sym_hashpw ''s3cret'' shop_db ''u-carol'' ''salt'' 60 61 carol_form
        = (shop_db\<lparr>users := users shop_db @
               [\<lparr>u_id = ''u-carol'', u_email = uc_email carol_form,
                 u_password = sym_hashpw (uc_password carol_form) ''salt'',
                 u_name = uc_name carol_form, u_phone = uc_phone carol_form,
                 u_role = ''client'', u_created_at = 60\<rparr>]\<rparr>,
           Inr (sym_encode \<lparr>tk_user_id = ''u-carol'', tk_email = uc_email carol_form, tk_role = ''client'',
                        tk_exp = 61 + timedelta_days 30\<rparr> ''s3cret'' ''HS256'',
                \<lparr>usr_id = ''u-carol'', usr_email = uc_email carol_form, usr_name = uc_name carol_form,
                 usr_phone = uc_phone carol_form, usr_role = ''client'',
                 usr_created_at = 60\<rparr>))"
    by blast
  show ?thesis
    unfolding first second using taken free
    by (simp add: carol_form_def shop_db_def sym_hashpw_def sym_encode_def timedelta_days_def)
qed

section \<open>What is uploaded is what is retrieved\<close>

subsection \<open>The RFC 4648 codec decodes what it encodes\<close>

lemma index_of_nth:
  "distinct xs \<Longrightarrow> n < length xs \<Longrightarrow> index_of (xs ! n) xs = Some n"
proof (induction xs arbitrary: n)
  case Nil
  then show ?case by simp
next
  case (Cons x xs)
  show ?case
  proof (cases n)
    case 0
    then show ?thesis by simp
  next
    case (Suc m)
    with Cons.prems have "m < length xs" and "xs ! m \<noteq> x" and "distinct xs"
      by (auto simp: nth_mem)
    with Cons.IH [of m] Suc show ?thesis by simp
  qed
qed

lemma index_of_Some_mem: "index_of c xs = Some n \<Longrightarrow> c \<in> set xs"
  by (induction xs arbitrary: n) (auto split: if_splits)

lemma b64_alphabet_distinct: "distinct b64_alphabet"
  by (simp add: b64_alphabet_def)

lemma b64_alphabet_length: "length b64_alphabet = 64"
  by (simp add: b64_alphabet_def)

lemma b64_value_char: "n < 64 \<Longrightarrow> b64_value (b64_char n) = Some n"
  unfolding b64_value_def b64_char_def
  by (rule index_of_nth) (simp_all add: b64_alphabet_distinct b64_alphabet_length)

lemma b64_char_not_pad: "n < 64 \<Longrightarrow> b64_char n \<noteq> CHR ''=''"
proof
  assume "n < 64" and "b64_char n = CHR ''=''"
  then have "b64_value (CHR ''='') = Some n"
    using b64_value_char [of n] by simp
  then have "CHR ''='' \<in> set b64_alphabet"
    unfolding b64_value_def by (rule index_of_Some_mem)
  then show False by (simp add: b64_alphabet_def)
qed

lemma byte_bound: "unat (a :: 8 word) < 256"
  using unsigned_less [of a, where 'a = nat] by simp

lemma sextets_first:
  fixes a b :: "8 word"
  shows "(of_nat (unat a div 4 * 4 + (unat a mod 4 * 16 + unat b div 16) div 16) :: 8 word) = a"
proof -
  have "unat b < 256" by (rule byte_bound)
  then have "(unat a mod 4 * 16 + unat b div 16) div 16 = unat a mod 4"
    by simp
  then have "unat a div 4 * 4 + (unat a mod 4 * 16 + unat b div 16) div 16 = unat a"
    by simp
  then show ?thesis by simp
qed

lemma sextets_first_padded:
  fixes a :: "8 word"
  shows "(of_nat (unat a div 4 * 4 + unat a mod 4 * 16 div 16) :: 8 word) = a"
proof -
  have "unat a div 4 * 4 + unat a mod 4 * 16 div 16 = unat a"
    by simp
  then show ?thesis by simp
qed

lemma sextets_second_padded:
  fixes a b :: "8 word"
  shows "(of_nat ((unat a mod 4 * 16 + unat b div 16) mod 16 * 16
            + unat b mod 16 * 4 div 4) :: 8 word) = b"
proof -
  have "unat b < 256" by (rule byte_bound)
  then have "(unat a mod 4 * 16 + unat b div 16) mod 16 = unat b div 16"
    by simp
  then have "(unat a mod 4 * 16 + unat b div 16) mod 16 * 16 + unat b mod 16 * 4 div 4 = unat b"
    by simp
  then show ?thesis by simp
qed

lemma sextets_second:
  fixes a b c :: "8 word"
  shows "(of_nat ((unat a mod 4 * 16 + unat b div 16) mod 16 * 16
            + (unat b mod 16 * 4 + unat c div 64) div 4) :: 8 word) = b"
proof -
  have "unat b < 256" and "unat c < 256" by (rule byte_bound)+
  then have "(unat a mod 4 * 16 + unat b div 16) mod 16 = unat b div 16"
    and "(unat b mod 16 * 4 + unat c div 64) div 4 = unat b mod 16"
    by simp_all
  then have "(unat a mod 4 * 16 + unat b div 16) mod 16 * 16
            + (unat b mod 16 * 4 + unat c div 64) div 4 = unat b"
    by simp
  then show ?thesis by simp
qed

lemma sextets_third:
  fixes b c :: "8 word"
  shows "(of_nat ((unat b mod 16 * 4 + unat c div 64) mod 4 * 64 + unat c mod 64) :: 8 word) = c"
proof -
  have "unat c < 256" by (rule byte_bound)
  then have "(unat b mod 16 * 4 + unat c div 64) mod 4 = unat c div 64"
    by simp
  then have "(unat b mod 16 * 4 + unat c div 64) mod 4 * 64 + unat c mod 64 = unat c"
    by simp
  then show ?thesis by simp
qed

lemma sextet_ranges:
  fixes a b c :: "8 word"
  shows "unat a div 4 < 64" and "unat a mod 4 * 16 < 64"
    and "unat a mod 4 * 16 + unat b div 16 < 64" and "unat b mod 16 * 4 < 64"
    and "unat b mod 16 * 4 + unat c div 64 < 64" and "unat c mod 64 < 64"
  using byte_bound [of a] byte_bound [of b] byte_bound [of c] by linarith+

lemma rfc4648_round_trip: "rfc4648_decode (rfc4648_encode bs) = Some bs"
proof (induction bs rule: rfc4648_encode.induct)
  case 1
  show ?case by simp
next
  case (2 a)
  have "b64_value (b64_char (unat a div 4)) = Some (unat a div 4)"
    and "b64_value (b64_char (unat a mod 4 * 16)) = Some (unat a mod 4 * 16)"
    by (rule b64_value_char, rule sextet_ranges)+
  then show ?case
    using sextets_first_padded [of a] by simp
next
  case (3 a b)
  have "b64_value (b64_char (unat a div 4)) = Some (unat a div 4)"
    and "b64_value (b64_char (unat a mod 4 * 16 + unat b div 16))
           = Some (unat a mod 4 * 16 + unat b div 16)"
    and "b64_value (b64_char (unat b mod 16 * 4)) = Some (unat b mod 16 * 4)"
    by (rule b64_value_char, rule sextet_ranges)+
  moreover have "b64_char (unat b mod 16 * 4) \<noteq> CHR ''=''"
    by (rule b64_char_not_pad, rule sextet_ranges)
  ultimately show ?case
    using sextets_first [of a b] sextets_second_padded [of a b] by simp
next
  case (4 a b c rest)
  have "b64_value (b64_char (unat a div 4)) = Some (unat a div 4)"
    and "b64_value (b64_char (unat a mod 4 * 16 + unat b div 16))
           = Some (unat a mod 4 * 16 + unat b div 16)"
    and "b64_value (b64_char (unat b mod 16 * 4 + unat c div 64))
           = Some (unat b mod 16 * 4 + unat c div 64)"
    and "b64_value (b64_char (unat c mod 64)) = Some (unat c mod 64)"
    by (rule b64_value_char, rule sextet_ranges)+
  moreover have "b64_char (unat b mod 16 * 4 + unat c div 64) \<noteq> CHR ''=''"
    and "b64_char (unat c mod 64) \<noteq> CHR ''=''"
    by (rule b64_char_not_pad, rule sextet_ranges)+
  ultimately show ?case
    using "4.IH" sextets_first [of a b] sextets_second [of a b c] sextets_third [of b c]
    by simp
qed

subsection \<open>Upload and retrieval\<close>

lemma find_one_append_hit:
  "find_one q xs = Some x \<Longrightarrow> find_one q (xs @ ys) = Some x"
  unfolding find_one_def by (induction xs) (auto split: if_splits)

lemma find_one_append_miss:
  "\<forall>x \<in> set xs. \<not> q x \<Longrightarrow> find_one q (xs @ ys) = find_one q ys"
  unfolding find_one_def by (induction xs) auto

text \<open>
  C8. With a base64 codec that decodes what it encodes, and a file id that no stored
  file has (it is drawn by \<^verbatim>\<open>uuid4\<close>): \<^verbatim>\<open>upload_file\<close> returns that id with the URL
  \<^verbatim>\<open>/api/files/\<close> followed by it; \<^verbatim>\<open>get_file\<close> of the id then returns exactly the uploaded
  bytes, with the content type of the upload as media type, and goes on doing so after
  any later insertions; and \<^verbatim>\<open>get_file\<close> of an id that no stored file has fails with
  status 404.
\<close>

theorem upload_then_get_file:
  assumes codec: "\<forall>b. b64decode (b64encode b) = Some b"
    and fresh: "file_id \<notin> f_id ` set (files d)"
  shows "snd (upload_file b64encode d file_id now file current_user) = (file_id, ''/api/files/'' @ file_id)
    \<and> get_file b64decode (fst (upload_file b64encode d file_id now file current_user)) file_id
        = Inr \<lparr>content = up_contents file, media_type = up_content_type file\<rparr>
    \<and> (\<forall>later newer. files later = files (fst (upload_file b64encode d file_id now file current_user)) @ newer
          \<longrightarrow> get_file b64decode later file_id
                = Inr \<lparr>content = up_contents file, media_type = up_content_type file\<rparr>)
    \<and> get_file b64decode d file_id = Inl (HTTPException 404 ''File not found'')"
proof -
  let ?doc = "\<lparr>f_id = file_id, f_filename = up_filename file,
               f_data = b64encode (up_contents file), f_content_type = up_content_type file,
               f_uploaded_by = tk_user_id current_user, f_created_at = now\<rparr>"
  let ?q = "\<lambda>f. f_id f = file_id"
  have up: "upload_file b64encode d file_id now file current_user
              = (d\<lparr>files := files d @ [?doc]\<rparr>, file_id, ''/api/files/'' @ file_id)"
    by (simp add: upload_file_def insert_one_def file_url_def)
  from fresh have absent: "\<forall>x \<in> set (files d). \<not> ?q x"
    by (auto simp: image_iff)
  then have "find_one ?q (files d @ [?doc]) = find_one ?q [?doc]"
    by (rule find_one_append_miss)
  then have hit: "find_one ?q (files d @ [?doc]) = Some ?doc"
    by (simp add: find_one_def)
  have decoded: "b64decode (f_data ?doc) = Some (up_contents file)"
    using codec by simp
  have now_there: "get_file b64decode (d\<lparr>files := files d @ [?doc]\<rparr>) file_id
        = Inr \<lparr>content = up_contents file, media_type = up_content_type file\<rparr>"
    using hit decoded by (simp add: get_file_def)
  have stays: "get_file b64decode later file_id
        = Inr \<lparr>content = up_contents file, media_type = up_content_type file\<rparr>"
    if "files later = (files d @ [?doc]) @ newer" for later newer
  proof -
    from hit have "find_one ?q ((files d @ [?doc]) @ newer) = Some ?doc"
      by (rule find_one_append_hit)
    with that decoded show ?thesis by (simp add: get_file_def)
  qed
  from absent have "find_one ?q (files d) = None"
    by (simp add: find_one_None_iff)
  then have before: "get_file b64decode d file_id = Inl (HTTPException 404 ''File not found'')"
    by (simp add: get_file_def)
  from now_there stays before show ?thesis
    unfolding up by simp
qed

theorem upload_then_get_file_witness:
  "(\<forall>b. rfc4648_decode (rfc4648_encode b) = Some b)
   \<and> ''f-1'' \<notin> f_id ` set (files shop_db)
   \<and> upload_file rfc4648_encode shop_db ''f-1'' 70 logo_png alice
       = (shop_db\<lparr>files := [\<lparr>f_id = ''f-1'', f_filename = Some ''logo.png'', f_data = ''TWFu/w=='',
                               f_content_type = Some ''image/png'', f_uploaded_by = ''u-alice'',
                               f_created_at = 70\<rparr>]\<rparr>,
          ''f-1'', ''/api/files/f-1'')
   \<and> get_file rfc4648_decode (fst (upload_file rfc4648_encode shop_db ''f-1'' 70 logo_png alice)) ''f-1''
       = Inr \<lparr>content = [0x4D, 0x61, 0x6E, 0xFF], media_type = Some ''image/png''\<rparr>
   \<and> get_file rfc4648_decode shop_db ''f-1'' = Inl (HTTPException 404 ''File not found'')"
proof -
  have codec: "\<forall>b. rfc4648_decode (rfc4648_encode b) = Some b"
    by (simp add: rfc4648_round_trip)
  have fresh: "''f-1'' \<notin> f_id ` set (files shop_db)"
    by (simp add: shop_db_def)
  have stored: "upload_file rfc4648_encode shop_db ''f-1'' 70 logo_png alice
       = (shop_db\<lparr>files := [\<lparr>f_id = ''f-1'', f_filename = Some ''logo.png'', f_data = ''TWFu/w=='',
                               f_content_type = Some ''image/png'', f_uploaded_by = ''u-alice'',
                               f_created_at = 70\<rparr>]\<rparr>,
          ''f-1'', ''/api/files/f-1'')"
    by (simp add: upload_file_def insert_one_def file_url_def logo_png_def alice_def shop_db_def
        b64_char_def b64_alphabet_def)
  from upload_then_get_file [OF codec fresh, of 70 logo_png alice]
  have "get_file rfc4648_decode (fst (upload_file rfc4648_encode shop_db ''f-1'' 70 logo_png alice)) ''f-1''
       = Inr \<lparr>content = up_contents logo_png, media_type = up_content_type logo_png\<rparr>"
    and "get_file rfc4648_decode shop_db ''f-1'' = Inl (HTTPException 404 ''File not found'')"
    by blast+
  with codec fresh stored show ?thesis
    by (simp add: logo_png_def)
qed

section \<open>The window of a subscription\<close>

text \<open>
  C6. For every caller whose user document is in the store, whatever subscriptions the
  store has (none included), \<^verbatim>\<open>create_subscription\<close> appends and returns a subscription
  whose \<^verbatim>\<open>start_date\<close> is the clock reading of the call, whose \<^verbatim>\<open>end_date\<close> is that
  reading plus 30 days (2592000000000 microseconds) and whose status is \<^verbatim>\<open>pending\<close>
  (\<^verbatim>\<open>created_at\<close> holds a second, later reading of the clock). For every subscription
  \<open>s\<close> of a store, \<^verbatim>\<open>verify_subscription\<close> called with its id by an administrator
  succeeds and changes the store in one place only: \<open>s\<close> gets status \<^verbatim>\<open>active\<close> and
  keeps every other field, \<^verbatim>\<open>end_date\<close> among them.
\<close>

theorem subscription_window_fixed_at_creation:
  "(find_one (\<lambda>u. u_id u = tk_user_id caller) (users d) = Some user \<longrightarrow>
      create_subscription d new_id now now_created method caller
        = (d\<lparr>subscriptions := subscriptions d @
               [\<lparr>sub_id = new_id, sub_client_id = tk_user_id caller,
                 sub_client_name = u_name user, sub_client_email = u_email user,
                 sub_start_date = now, sub_end_date = now + timedelta_days 30,
                 sub_status = ''pending'', sub_payment_screenshot = [],
                 sub_payment_method = method, sub_created_at = now_created\<rparr>]\<rparr>,
           Inr \<lparr>sub_id = new_id, sub_client_id = tk_user_id caller,
                 sub_client_name = u_name user, sub_client_email = u_email user,
                 sub_start_date = now, sub_end_date = now + timedelta_days 30,
                 sub_status = ''pending'', sub_payment_screenshot = [],
                 sub_payment_method = method, sub_created_at = now_created\<rparr>))
   \<and> timedelta_days 30 = 30 * 24 * 60 * 60 * 1000000
   \<and> (tk_role admin = ''admin'' \<longrightarrow> s \<in> set (subscriptions d) \<longrightarrow>
        distinct (map sub_id (subscriptions d)) \<longrightarrow>
          verify_subscription d (sub_id s) admin
            = (d\<lparr>subscriptions :=
                    map (\<lambda>x. if sub_id x = sub_id s then x\<lparr>sub_status := ''active''\<rparr> else x)
                      (subscriptions d)\<rparr>,
               Inr Success)
        \<and> find_one (\<lambda>x. sub_id x = sub_id s)
              (subscriptions (fst (verify_subscription d (sub_id s) admin)))
            = Some (s\<lparr>sub_status := ''active''\<rparr>)
        \<and> map_option sub_end_date
              (find_one (\<lambda>x. sub_id x = sub_id s)
                 (subscriptions (fst (verify_subscription d (sub_id s) admin))))
            = Some (sub_end_date s))"
proof -
  have created: "find_one (\<lambda>u. u_id u = tk_user_id caller) (users d) = Some user \<longrightarrow>
      create_subscription d new_id now now_created method caller
        = (d\<lparr>subscriptions := subscriptions d @
               [\<lparr>sub_id = new_id, sub_client_id = tk_user_id caller,
                 sub_client_name = u_name user, sub_client_email = u_email user,
                 sub_start_date = now, sub_end_date = now + timedelta_days 30,
                 sub_status = ''pending'', sub_payment_screenshot = [],
                 sub_payment_method = method, sub_created_at = now_created\<rparr>]\<rparr>,
           Inr \<lparr>sub_id = new_id, sub_client_id = tk_user_id caller,
                 sub_client_name = u_name user, sub_client_email = u_email user,
                 sub_start_date = now, sub_end_date = now + timedelta_days 30,
                 sub_status = ''pending'', sub_payment_screenshot = [],
                 sub_payment_method = method, sub_created_at = now_created\<rparr>)"
    by (simp add: create_subscription_def insert_one_def Let_def)
  have window: "timedelta_days 30 = 30 * 24 * 60 * 60 * 1000000"
    by (simp add: timedelta_days_def)
  let ?subs = "map (\<lambda>x. if sub_id x = sub_id s then x\<lparr>sub_status := ''active''\<rparr> else x)
                 (subscriptions d)"
  have activation: "tk_role admin = ''admin'' \<longrightarrow> s \<in> set (subscriptions d) \<longrightarrow>
        distinct (map sub_id (subscriptions d)) \<longrightarrow>
          verify_subscription d (sub_id s) admin
            = (d\<lparr>subscriptions := ?subs\<rparr>, Inr Success)
        \<and> find_one (\<lambda>x. sub_id x = sub_id s)
              (subscriptions (fst (verify_subscription d (sub_id s) admin)))
            = Some (s\<lparr>sub_status := ''active''\<rparr>)
        \<and> map_option sub_end_date
              (find_one (\<lambda>x. sub_id x = sub_id s)
                 (subscriptions (fst (verify_subscription d (sub_id s) admin))))
            = Some (sub_end_date s)"
  proof (intro impI)
  assume admin: "tk_role admin = ''admin''" and s: "s \<in> set (subscriptions d)"
    and ids: "distinct (map sub_id (subscriptions d))"
  have "update_one (\<lambda>x. sub_id x = sub_id s) (\<lambda>x. x\<lparr>sub_status := ''active''\<rparr>) (subscriptions d)
          = (?subs, 1)"
    using ids s by (intro update_one_distinct_key) auto
  with admin have activated: "verify_subscription d (sub_id s) admin
          = (d\<lparr>subscriptions := ?subs\<rparr>, Inr Success)"
    by (simp add: verify_subscription_def get_admin_user_def)
  have after: "find_one (\<lambda>x. sub_id x = sub_id s) ?subs = Some (s\<lparr>sub_status := ''active''\<rparr>)"
    using ids s by (rule find_one_map_upd) simp
  show "verify_subscription d (sub_id s) admin
            = (d\<lparr>subscriptions := ?subs\<rparr>, Inr Success)
        \<and> find_one (\<lambda>x. sub_id x = sub_id s)
              (subscriptions (fst (verify_subscription d (sub_id s) admin)))
            = Some (s\<lparr>sub_status := ''active''\<rparr>)
        \<and> map_option sub_end_date
              (find_one (\<lambda>x. sub_id x = sub_id s)
                 (subscriptions (fst (verify_subscription d (sub_id s) admin))))
            = Some (sub_end_date s)"
    unfolding activated using after by simp
  qed
  from created window activation show ?thesis
    by (intro conjI)
qed

theorem subscription_window_fixed_at_creation_witness:
  "subscriptions campaign_db = []
   \<and> find_one (\<lambda>u. u_id u = tk_user_id alice) (users campaign_db) = Some alice_doc
   \<and> create_subscription campaign_db ''sub-2'' 100 101 ''syriatel'' alice
       = (campaign_db\<lparr>subscriptions :=
            [\<lparr>sub_id = ''sub-2'', sub_client_id = ''u-alice'', sub_client_name = ''Alice'',
              sub_client_email = ''alice@x.com'', sub_start_date = 100,
              sub_end_date = 2592000000100, sub_status = ''pending'',
              sub_payment_screenshot = [], sub_payment_method = ''syriatel'',
              sub_created_at = 101\<rparr>]\<rparr>,
          Inr \<lparr>sub_id = ''sub-2'', sub_client_id = ''u-alice'', sub_client_name = ''Alice'',
              sub_client_email = ''alice@x.com'', sub_start_date = 100,
              sub_end_date = 2592000000100, sub_status = ''pending'',
              sub_payment_screenshot = [], sub_payment_method = ''syriatel'',
              sub_created_at = 101\<rparr>)
   \<and> tk_role admin_caller = ''admin'' \<and> alice_sub \<in> set (subscriptions shop_db)
   \<and> snd (verify_subscription shop_db (sub_id alice_sub) admin_caller) = Inr Success
   \<and> subscriptions (fst (verify_subscription shop_db (sub_id alice_sub) admin_caller))
       = [alice_sub\<lparr>sub_status := ''active''\<rparr>]
   \<and> sub_end_date (alice_sub\<lparr>sub_status := ''active''\<rparr>) = 2592000000040"
proof -
  have none: "subscriptions campaign_db = []" by (simp add: campaign_db_def)
  have h1: "find_one (\<lambda>u. u_id u = tk_user_id alice) (users campaign_db) = Some alice_doc"
    by (simp add: find_one_def campaign_db_def alice_def alice_doc_def)
  have h2: "tk_role admin_caller = ''admin''" by (simp add: admin_caller_def)
  have h3: "alice_sub \<in> set (subscriptions shop_db)" by (simp add: shop_db_def)
  have h4: "distinct (map sub_id (subscriptions shop_db))" by (simp add: shop_db_def)
  from subscription_window_fixed_at_creation
         [of alice campaign_db alice_doc "''sub-2''" 100 101 "''syriatel''"] h1
  have first: "create_subscription campaign_db ''sub-2'' 100 101 ''syriatel'' alice
       = (campaign_db\<lparr>subscriptions :=
            [\<lparr>sub_id = ''sub-2'', sub_client_id = ''u-alice'', sub_client_name = ''Alice'',
              sub_client_email = ''alice@x.com'', sub_start_date = 100,
              sub_end_date = 2592000000100, sub_status = ''pending'',
              sub_payment_screenshot = [], sub_payment_method = ''syriatel'',
              sub_created_at = 101\<rparr>]\<rparr>,
          Inr \<lparr>sub_id = ''sub-2'', sub_client_id = ''u-alice'', sub_client_name = ''Alice'',
              sub_client_email = ''alice@x.com'', sub_start_date = 100,
              sub_end_date = 2592000000100, sub_status = ''pending'',
              sub_payment_screenshot = [], sub_payment_method = ''syriatel'',
              sub_created_at = 101\<rparr>)"
    by (simp add: none alice_def alice_doc_def)
  from subscription_window_fixed_at_creation [where admin = admin_caller and s = alice_sub and d = shop_db]
    h2 h3 h4
  have activated: "verify_subscription shop_db (sub_id alice_sub) admin_caller
            = (shop_db\<lparr>subscriptions :=
                    map (\<lambda>x. if sub_id x = sub_id alice_sub then x\<lparr>sub_status := ''active''\<rparr> else x)
                      (subscriptions shop_db)\<rparr>,
               Inr Success)"
    by blast
  then have "snd (verify_subscription shop_db (sub_id alice_sub) admin_caller) = Inr Success"
    and "subscriptions (fst (verify_subscription shop_db (sub_id alice_sub) admin_caller))
       = [alice_sub\<lparr>sub_status := ''active''\<rparr>]"
    by (simp_all add: shop_db_def)
  moreover have "sub_end_date (alice_sub\<lparr>sub_status := ''active''\<rparr>) = 2592000000040"
    by (simp add: alice_sub_def timedelta_days_def)
  ultimately show ?thesis using none h1 h2 h3 first by (intro conjI)
qed

section \<open>The settings document is created once\<close>

text \<open>
  C7. When the store has no settings document, \<^verbatim>\<open>get_admin_settings\<close> returns the
  settings with both QR fields empty and leaves the store with exactly one settings
  document, the default; called again on that store it returns the same settings and
  leaves the store as it is: still one document.
\<close>

theorem admin_settings_lazy_singleton:
  assumes none: "admin_settings d = []"
  shows "snd (get_admin_settings d) = \<lparr>sham_cash_qr = [], syriatel_qr = []\<rparr>
    \<and> fst (get_admin_settings d)
        = d\<lparr>admin_settings := [\<lparr>st_sham_cash_qr = Some [], st_syriatel_qr = Some []\<rparr>]\<rparr>
    \<and> get_admin_settings (fst (get_admin_settings d))
        = (fst (get_admin_settings d), \<lparr>sham_cash_qr = [], syriatel_qr = []\<rparr>)
    \<and> length (admin_settings (fst (get_admin_settings (fst (get_admin_settings d))))) = 1"
proof -
  let ?default = "\<lparr>st_sham_cash_qr = Some [], st_syriatel_qr = Some []\<rparr>"
  let ?d1 = "d\<lparr>admin_settings := [?default]\<rparr>"
  have first: "get_admin_settings d = (?d1, \<lparr>sham_cash_qr = [], syriatel_qr = []\<rparr>)"
    using none
    by (simp add: get_admin_settings_def find_one_def insert_one_def AdminSettings_of_def)
  have "\<not> empty_dict ?default"
    by (simp add: empty_dict_def)
  then have second: "get_admin_settings ?d1 = (?d1, \<lparr>sham_cash_qr = [], syriatel_qr = []\<rparr>)"
    by (simp add: get_admin_settings_def find_one_def AdminSettings_of_def)
  show ?thesis
    unfolding first using second by simp
qed

theorem admin_settings_lazy_singleton_witness:
  "admin_settings shop_db = []
   \<and> get_admin_settings shop_db
       = (shop_db\<lparr>admin_settings := [\<lparr>st_sham_cash_qr = Some [], st_syriatel_qr = Some []\<rparr>]\<rparr>,
          \<lparr>sham_cash_qr = [], syriatel_qr = []\<rparr>)
   \<and> get_admin_settings (fst (get_admin_settings shop_db))
       = (fst (get_admin_settings shop_db), \<lparr>sham_cash_qr = [], syriatel_qr = []\<rparr>)"
proof -
  have none: "admin_settings shop_db = []" by (simp add: shop_db_def)
  note inst = admin_settings_lazy_singleton [OF none]
  from inst have a1: "snd (get_admin_settings shop_db) = \<lparr>sham_cash_qr = [], syriatel_qr = []\<rparr>"
    by (rule conjunct1)
  from inst have a2: "fst (get_admin_settings shop_db)
        = shop_db\<lparr>admin_settings := [\<lparr>st_sham_cash_qr = Some [], st_syriatel_qr = Some []\<rparr>]\<rparr>"
    by blast
  from inst have a3: "get_admin_settings (fst (get_admin_settings shop_db))
        = (fst (get_admin_settings shop_db), \<lparr>sham_cash_qr = [], syriatel_qr = []\<rparr>)"
    by blast
  from a1 a2 have "get_admin_settings shop_db
       = (shop_db\<lparr>admin_settings := [\<lparr>st_sham_cash_qr = Some [], st_syriatel_qr = Some []\<rparr>]\<rparr>,
          \<lparr>sham_cash_qr = [], syriatel_qr = []\<rparr>)"
    by (simp only: prod_eq_iff fst_conv snd_conv)
  with none a3 show ?thesis
    by (intro conjI)
qed

section \<open>Listings\<close>

lemma sort_desc_sorted: "sorted_wrt (\<lambda>x y. key y \<le> key x) (sort_desc key xs)"
proof -
  have "sorted (map key (sort_key key xs))" by (rule sorted_sort_key)
  then have "sorted_wrt (\<lambda>x y. key x \<le> key y) (sort_key key xs)"
    by (simp add: sorted_wrt_map)
  then show ?thesis
    by (simp add: sort_desc_def sorted_wrt_rev)
qed

lemma mset_sort_desc: "mset (sort_desc key xs) = mset xs"
  by (simp add: sort_desc_def)

lemma set_sort_desc: "set (sort_desc key xs) = set xs"
  by (simp add: sort_desc_def)

lemma length_sort_desc: "length (sort_desc key xs) = length xs"
  by (simp add: sort_desc_def)

lemma newest_page_cut: "newest_page key xs (to_list 1000 (sort_desc key xs))"
proof -
  let ?ys = "sort_desc key xs"
  have split: "?ys = take 1000 ?ys @ drop 1000 ?ys" by simp
  have len: "length (take 1000 ?ys) = min 1000 (length xs)"
    by (simp add: length_sort_desc min.commute)
  have "mset ?ys = mset (take 1000 ?ys) + mset (drop 1000 ?ys)"
    by (metis split mset_append)
  then have sub: "mset (take 1000 ?ys) \<subseteq># mset xs"
    by (metis mset_sort_desc mset_subset_eq_add_left)
  have sorted_all: "sorted_wrt (\<lambda>x y. key y \<le> key x) (take 1000 ?ys @ drop 1000 ?ys)"
    using sort_desc_sorted [of key xs] by simp
  then have sorted_page: "sorted_wrt (\<lambda>x y. key y \<le> key x) (take 1000 ?ys)"
    unfolding sorted_wrt_append by blast
  have rest: "key y \<le> key x"
    if "x \<in> set (take 1000 ?ys)" and "y \<in> set xs - set (take 1000 ?ys)" for x y
  proof -
    from that(2) have "y \<in> set (take 1000 ?ys @ drop 1000 ?ys)" and "y \<notin> set (take 1000 ?ys)"
      by (simp_all add: set_sort_desc)
    then have "y \<in> set (drop 1000 ?ys)"
      unfolding set_append by blast
    with sorted_all that(1) show ?thesis
      unfolding sorted_wrt_append by blast
  qed
  from len sub sorted_page rest show ?thesis
    unfolding newest_page_def to_list_def by blast
qed


lemma comprehension_rel:
  "comprehension f xs = Inr ys \<Longrightarrow> list_all2 (\<lambda>x y. f x = Inr y) xs ys"
proof (induction xs arbitrary: ys)
  case Nil
  then show ?case by simp
next
  case (Cons x xs)
  from Cons.prems obtain y zs where "f x = Inr y" and "comprehension f xs = Inr zs"
    and "ys = y # zs"
    by (auto split: sum.splits)
  with Cons.IH [of zs] show ?case by simp
qed

lemma comprehension_total:
  "\<forall>x \<in> set xs. \<exists>y. f x = Inr y \<Longrightarrow> \<exists>ys. comprehension f xs = Inr ys"
proof (induction xs)
  case Nil
  then show ?case by simp
next
  case (Cons x xs)
  then obtain y zs where "f x = Inr y" and "comprehension f xs = Inr zs"
    by auto
  then show ?case by simp
qed


lemma get_ad_requests_page:
  "get_ad_requests d u = respond (comprehension AdRequest_of
     (to_list 1000 (sort_desc ad_created_at
        (filter (\<lambda>a. tk_role u = ''admin'' \<or> ad_client_id a = tk_user_id u) (ad_requests d)))))"
  by (simp add: get_ad_requests_def find_many_def)


lemma newest_first_kept:
  assumes a: "a \<in> set xs"
    and few: "length (filter (\<lambda>x. key a \<le> key x) xs) \<le> n"
  shows "a \<in> set (to_list n (sort_desc key xs))"
proof -
  let ?ys = "sort_desc key xs"
  let ?P = "\<lambda>x. key a \<le> key x"
  from a have "a \<in> set ?ys" by (simp add: set_sort_desc)
  then obtain i where i: "i < length ?ys" and at: "?ys ! i = a"
    by (auto simp: in_set_conv_nth)
  have sorted: "sorted_wrt (\<lambda>x y. key y \<le> key x) ?ys" by (rule sort_desc_sorted)
  have "?P x" if "x \<in> set (take (Suc i) ?ys)" for x
  proof -
    from that obtain j where j: "j < Suc i" and x: "x = ?ys ! j"
      using i by (auto simp: in_set_conv_nth)
    show ?thesis
    proof (cases "j = i")
      case True
      with x at show ?thesis by simp
    next
      case False
      with j have "j < i" by simp
      with sorted i have "key (?ys ! i) \<le> key (?ys ! j)"
        by (simp add: sorted_wrt_iff_nth_less)
      with x at show ?thesis by simp
    qed
  qed
  then have "filter ?P (take (Suc i) ?ys) = take (Suc i) ?ys"
    by (simp add: filter_id_conv)
  then have "length (filter ?P (take (Suc i) ?ys)) = Suc i"
    using i by simp
  moreover have "length (filter ?P (take (Suc i) ?ys)) \<le> length (filter ?P ?ys)"
  proof -
    have "filter ?P ?ys = filter ?P (take (Suc i) ?ys) @ filter ?P (drop (Suc i) ?ys)"
      by (metis append_take_drop_id filter_append)
    then show ?thesis by simp
  qed
  moreover have "length (filter ?P ?ys) = length (filter ?P xs)"
  proof -
    have "mset (filter ?P ?ys) = mset (filter ?P xs)"
      by (simp add: mset_sort_desc)
    then show ?thesis by (metis size_mset)
  qed
  ultimately have "Suc i \<le> n" using few by simp
  then have "i < n" by simp
  with i have "?ys ! i \<in> set (take n ?ys)"
    by (auto simp: in_set_conv_nth intro!: exI [of _ i])
  with at show ?thesis by (simp add: to_list_def)
qed

lemma page_member_rank:
  assumes x: "x \<in> set (to_list n (sort_desc key xs))"
  shows "length (filter (\<lambda>y. key x < key y) xs) < n"
proof -
  let ?ys = "sort_desc key xs"
  let ?P = "\<lambda>y. key x < key y"
  from x obtain i where i: "i < n" "i < length ?ys" and at: "?ys ! i = x"
    by (auto simp: to_list_def in_set_conv_nth)
  have sorted: "sorted_wrt (\<lambda>a b. key b \<le> key a) ?ys" by (rule sort_desc_sorted)
  have "\<not> ?P y" if "y \<in> set (drop i ?ys)" for y
  proof -
    from that obtain k where "k < length ?ys - i" and y: "y = ?ys ! (i + k)"
      by (auto simp: in_set_conv_nth)
    then have k: "i + k < length ?ys" by simp
    show ?thesis
    proof (cases k)
      case 0
      with y at show ?thesis by simp
    next
      case (Suc k')
      then have "i < i + k" by simp
      with sorted k have "key (?ys ! (i + k)) \<le> key (?ys ! i)"
        by (simp add: sorted_wrt_iff_nth_less)
      with y at show ?thesis by simp
    qed
  qed
  then have "filter ?P (drop i ?ys) = []"
    by (simp add: filter_empty_conv)
  moreover have "filter ?P ?ys = filter ?P (take i ?ys) @ filter ?P (drop i ?ys)"
    by (metis append_take_drop_id filter_append)
  ultimately have "length (filter ?P ?ys) = length (filter ?P (take i ?ys))" by simp
  also have "\<dots> \<le> length (take i ?ys)" by (rule length_filter_le)
  also have "\<dots> \<le> i" by simp
  finally have "length (filter ?P ?ys) < n" using i(1) by simp
  moreover have "length (filter ?P ?ys) = length (filter ?P xs)"
  proof -
    have "mset (filter ?P ?ys) = mset (filter ?P xs)"
      by (simp add: mset_sort_desc)
    then show ?thesis by (metis size_mset)
  qed
  ultimately show ?thesis by simp
qed

lemma same_key_same_doc:
  assumes "distinct (map k xs)" and "x \<in> set xs" and "y \<in> set xs" and "k y = k x"
  shows "y = x"
proof -
  from assms(1) have "inj_on k (set xs)" by (simp add: distinct_map)
  with assms(2-4) show ?thesis by (auto dest: inj_onD)
qed

lemma find_one_distinct_where:
  assumes ids: "distinct (map k xs)" and x: "x \<in> set xs"
  shows "find_one (\<lambda>y. k y = k x \<and> P y) xs = (if P x then Some x else None)"
proof (cases "P x")
  case True
  have "find_one (\<lambda>y. k y = k x \<and> P y) xs = Some x"
    using ids x unfolding find_one_def
  proof (induction xs)
    case Nil
    then show ?case by simp
  next
    case (Cons y ys)
    then show ?case
      using True by (cases "k y = k x") (auto simp: image_iff)
  qed
  with True show ?thesis by simp
next
  case False
  have "\<not> (k y = k x \<and> P y)" if "y \<in> set xs" for y
    using same_key_same_doc [OF ids x that] False by blast
  then have "find_one (\<lambda>y. k y = k x \<and> P y) xs = None"
    by (simp add: find_one_None_iff)
  with False show ?thesis by simp
qed

lemma list_all2_in_right: "list_all2 R xs ys \<Longrightarrow> y \<in> set ys \<Longrightarrow> \<exists>x \<in> set xs. R x y"
  by (induction rule: list_all2_induct) auto

lemma list_all2_in_left: "list_all2 R xs ys \<Longrightarrow> x \<in> set xs \<Longrightarrow> \<exists>y \<in> set ys. R x y"
  by (induction rule: list_all2_induct) auto

lemma AdRequest_of_fields:
  "AdRequest_of x = Inr y \<Longrightarrow> ar_id y = ad_id x \<and> ar_client_id y = ad_client_id x"
  by (auto simp: AdRequest_of_def split: option.splits)

lemma AdRequest_of_valid: "ad_other_info x \<noteq> None \<Longrightarrow> \<exists>y. AdRequest_of x = Inr y"
  by (auto simp: AdRequest_of_def split: option.splits)

lemma returned_source:
  assumes "y \<in> set (returned (respond (comprehension f xs)))"
  shows "\<exists>x \<in> set xs. f x = Inr y"
proof (cases "comprehension f xs")
  case (Inl e)
  with assms show ?thesis by (simp add: returned_def respond_def)
next
  case (Inr ys)
  then have "list_all2 (\<lambda>x y. f x = Inr y) xs ys" by (rule comprehension_rel)
  moreover from assms Inr have "y \<in> set ys" by (simp add: returned_def respond_def)
  ultimately show ?thesis by (rule list_all2_in_right)
qed

lemma returned_target:
  assumes valid: "\<forall>x \<in> set xs. \<exists>y. f x = Inr y" and x: "x \<in> set xs" and fx: "f x = Inr y"
  shows "y \<in> set (returned (respond (comprehension f xs)))"
proof -
  from valid obtain ys where ys: "comprehension f xs = Inr ys"
    using comprehension_total by blast
  then have "list_all2 (\<lambda>x y. f x = Inr y) xs ys" by (rule comprehension_rel)
  from list_all2_in_left [OF this x] fx have "y \<in> set ys" by auto
  with ys show ?thesis by (simp add: returned_def respond_def)
qed

lemma page_subset: "set (to_list n (sort_desc key xs)) \<subseteq> set xs"
  using set_take_subset [of n "sort_desc key xs"] by (simp add: to_list_def set_sort_desc)

lemma hex_digit_inj: "a < 16 \<Longrightarrow> b < 16 \<Longrightarrow> hex_digit a = hex_digit b \<Longrightarrow> a = b"
  unfolding hex_digit_def by (subst (asm) nth_eq_iff_index_eq) simp_all

lemma same_div_mod:
  fixes x y k :: nat
  assumes "x div k = y div k" and "x mod k = y mod k"
  shows "x = y"
proof -
  have "x = x div k * k + x mod k" by simp
  also have "\<dots> = y div k * k + y mod k" using assms by simp
  also have "\<dots> = y" by simp
  finally show ?thesis .
qed

lemma hex4_inj:
  assumes n: "n < 65536" and m: "m < 65536" and eq: "hex4 n = hex4 m"
  shows "n = m"
proof -
  from eq have d3: "n div 4096 mod 16 = m div 4096 mod 16"
    and d2: "n div 256 mod 16 = m div 256 mod 16"
    and d1: "n div 16 mod 16 = m div 16 mod 16" and d0: "n mod 16 = m mod 16"
    by (auto simp: hex4_def intro: hex_digit_inj)
  from n m have "n div 4096 < 16" and "m div 4096 < 16" by simp_all
  with d3 have "n div 4096 = m div 4096" by simp
  then have "n div 256 div 16 = m div 256 div 16"
    by (simp flip: div_mult2_eq)
  from this d2 have "n div 256 = m div 256" by (rule same_div_mod)
  then have "n div 16 div 16 = m div 16 div 16"
    by (simp flip: div_mult2_eq)
  from this d1 have "n div 16 = m div 16" by (rule same_div_mod)
  from this d0 show ?thesis by (rule same_div_mod)
qed

lemma campaign_ids_distinct: "distinct (map ad_id (ad_requests campaign_db))"
proof -
  have "inj_on (\<lambda>n. ad_id (campaign_ad n)) (set [0..<1001])"
  proof (rule inj_onI)
    fix n m assume "n \<in> set [0..<1001]" and "m \<in> set [0..<1001]"
      and "ad_id (campaign_ad n) = ad_id (campaign_ad m)"
    then have "n < 65536" and "m < 65536" and "hex4 n = hex4 m"
      by (simp_all add: campaign_ad_def uuid_of_def)
    then show "n = m" by (rule hex4_inj)
  qed
  then have "distinct (map (\<lambda>n. ad_id (campaign_ad n)) [0..<1001])"
    by (simp add: distinct_map)
  then show ?thesis by (simp add: campaign_db_def comp_def)
qed

lemma oldest_left_out:
  assumes page: "newest_page key matching page"
    and dist: "distinct matching"
    and many: "1000 < length matching"
    and oldest: "\<forall>y \<in> set matching. y \<noteq> a \<longrightarrow> key a < key y"
  shows "a \<notin> set page"
proof
  assume a: "a \<in> set page"
  from page have len: "length page = 1000" and sub: "mset page \<subseteq># mset matching"
    and newer: "\<forall>x \<in> set page. \<forall>y \<in> set matching - set page. key y \<le> key x"
    using many by (simp_all add: newest_page_def)
  from sub have "set_mset (mset page) \<subseteq> set_mset (mset matching)" by (rule set_mset_mono)
  then have "set page \<subseteq> set matching" by simp
  have "card (set page) \<le> 1000" using card_length [of page] len by simp
  moreover have "card (set matching) = length matching" using dist by (rule distinct_card)
  ultimately have "card (set page) < card (set matching)" using many by simp
  then have "\<not> set matching \<subseteq> set page"
    using card_mono [of "set page" "set matching"] by auto
  then obtain y where y: "y \<in> set matching - set page" by blast
  with newer a have "key y \<le> key a" by blast
  moreover from y a have "y \<noteq> a" and "y \<in> set matching" by auto
  with oldest have "key a < key y" by blast
  ultimately show False by simp
qed

lemma returned_length_valid:
  assumes "\<forall>x \<in> set xs. \<exists>y. f x = Inr y"
  shows "length (returned (respond (comprehension f xs))) = length xs"
proof -
  from assms obtain ys where ys: "comprehension f xs = Inr ys"
    using comprehension_total by blast
  then have "list_all2 (\<lambda>x y. f x = Inr y) xs ys" by (rule comprehension_rel)
  then have "length ys = length xs" by (simp add: list_all2_lengthD)
  with ys show ?thesis by (simp add: returned_def respond_def)
qed

lemma campaign_all_alice:
  "filter (\<lambda>a. tk_role u = ''admin'' \<or> ad_client_id a = tk_user_id alice) (ad_requests campaign_db)
     = ad_requests campaign_db"
  by (simp add: campaign_db_def campaign_ad_def alice_def)

lemma campaign_size: "length (ad_requests campaign_db) = 1001"
  by (simp add: campaign_db_def)

lemma campaign_valid: "x \<in> set (ad_requests campaign_db) \<Longrightarrow> \<exists>y. AdRequest_of x = Inr y"
  by (auto simp: campaign_db_def campaign_ad_def AdRequest_of_def)

lemma campaign_oldest:
  "\<forall>y \<in> set (ad_requests campaign_db). y \<noteq> campaign_ad 0 \<longrightarrow>
     ad_created_at (campaign_ad 0) < ad_created_at y"
proof (intro ballI impI)
  fix y assume "y \<in> set (ad_requests campaign_db)" and differs: "y \<noteq> campaign_ad 0"
  then obtain n where y: "y = campaign_ad n" by (auto simp: campaign_db_def)
  have "n \<noteq> 0"
  proof
    assume "n = 0"
    with y differs show False by simp
  qed
  with y show "ad_created_at (campaign_ad 0) < ad_created_at y"
    by (simp add: campaign_ad_def)
qed

lemma campaign_oldest_left_out:
  assumes visible: "filter (\<lambda>a. tk_role u = ''admin'' \<or> ad_client_id a = tk_user_id u)
                      (ad_requests campaign_db) = ad_requests campaign_db"
  shows "ad_id (campaign_ad 0) \<notin> ar_id ` set (returned (get_ad_requests campaign_db u))"
proof
  let ?ads = "ad_requests campaign_db"
  let ?page = "to_list 1000 (sort_desc ad_created_at ?ads)"
  assume "ad_id (campaign_ad 0) \<in> ar_id ` set (returned (get_ad_requests campaign_db u))"
  then obtain y where "y \<in> set (returned (get_ad_requests campaign_db u))"
    and same: "ar_id y = ad_id (campaign_ad 0)"
    by (auto simp: image_iff)
  then have "y \<in> set (returned (respond (comprehension AdRequest_of ?page)))"
    by (simp add: get_ad_requests_page visible)
  from returned_source [OF this]
  obtain x where x: "x \<in> set ?page" and xy: "AdRequest_of x = Inr y" by blast
  from x have stored: "x \<in> set ?ads" by (rule subsetD [OF page_subset])
  have first: "campaign_ad 0 \<in> set ?ads" by (simp add: campaign_db_def)
  from xy same have "ad_id x = ad_id (campaign_ad 0)"
    using AdRequest_of_fields by fastforce
  with campaign_ids_distinct first stored have "x = campaign_ad 0"
    by (rule same_key_same_doc)
  with x have "campaign_ad 0 \<in> set ?page" by simp
  moreover have "campaign_ad 0 \<notin> set ?page"
  proof (rule oldest_left_out)
    show "newest_page ad_created_at ?ads ?page" by (rule newest_page_cut)
    show "distinct ?ads" using campaign_ids_distinct by (rule distinct_map [THEN iffD1, THEN conjunct1])
    show "1000 < length ?ads" by (simp add: campaign_size)
    show "\<forall>y \<in> set ?ads. y \<noteq> campaign_ad 0 \<longrightarrow> ad_created_at (campaign_ad 0) < ad_created_at y"
      by (rule campaign_oldest)
  qed
  ultimately show False by simp
qed

lemma campaign_page_full:
  assumes visible: "filter (\<lambda>a. tk_role u = ''admin'' \<or> ad_client_id a = tk_user_id u)
                      (ad_requests campaign_db) = ad_requests campaign_db"
  shows "length (returned (get_ad_requests campaign_db u)) = 1000"
proof -
  let ?ads = "ad_requests campaign_db"
  let ?page = "to_list 1000 (sort_desc ad_created_at ?ads)"
  have "\<exists>y. AdRequest_of x = Inr y" if "x \<in> set ?page" for x
  proof -
    from that have "x \<in> set ?ads" by (rule subsetD [OF page_subset])
    then show ?thesis by (rule campaign_valid)
  qed
  then have "\<forall>x \<in> set ?page. \<exists>y. AdRequest_of x = Inr y" by blast
  then have "length (returned (respond (comprehension AdRequest_of ?page))) = length ?page"
    by (rule returned_length_valid)
  also have "length ?page = 1000"
    by (simp add: to_list_def length_sort_desc campaign_size)
  finally show ?thesis
    by (simp add: get_ad_requests_page visible)
qed










section \<open>Visibility of ad requests\<close>

text \<open>
  C4, as amended. Let \<open>a\<close> be an ad request of the store, owned by client \<open>c1\<close>; let
  \<open>c2\<close> be another client and \<open>adm\<close> an administrator. Fetching \<open>a\<close> by id fails for
  \<open>c2\<close> with status 404, exactly as fetching an id that no ad request has, and the list
  of \<open>c2\<close> has no ad request with the id of \<open>a\<close>. When the notes of \<open>a\<close> are text, so
  that \<open>a\<close> has a response model \<open>m\<close>: fetching \<open>a\<close> by id returns \<open>m\<close> to \<open>c1\<close> and to
  \<open>adm\<close>; the list of \<open>c1\<close> contains \<open>m\<close> when at most 1000 of the ad requests of
  \<open>c1\<close> are as new as \<open>a\<close> or newer (\<open>a\<close> counted) and each of the thousand newest ad
  requests of \<open>c1\<close> (each with fewer than 1000 newer ones of \<open>c1\<close>) has text notes; and
  the list of \<open>adm\<close> contains \<open>m\<close> when at most 1000 of all ad requests are as new as
  \<open>a\<close> or newer and each of the thousand newest ad requests of the store has text
  notes.
\<close>

theorem ad_request_visibility:
  assumes a: "a \<in> set (ad_requests d)"
    and ids: "distinct (map ad_id (ad_requests d))"
    and owner: "tk_user_id c1 = ad_client_id a" and client1: "tk_role c1 \<noteq> ''admin''"
    and other: "tk_user_id c2 \<noteq> ad_client_id a" and client2: "tk_role c2 \<noteq> ''admin''"
    and admin: "tk_role adm = ''admin''"
  shows "get_ad_request d (ad_id a) c2 = Inl (HTTPException 404 ''Ad request not found'')
    \<and> (missing \<notin> ad_id ` set (ad_requests d) \<longrightarrow>
        get_ad_request d missing c2 = get_ad_request d (ad_id a) c2)
    \<and> ad_id a \<notin> ar_id ` set (returned (get_ad_requests d c2))
    \<and> (AdRequest_of a = Inr m \<longrightarrow> get_ad_request d (ad_id a) c1 = Inr m)
    \<and> (AdRequest_of a = Inr m \<longrightarrow> get_ad_request d (ad_id a) adm = Inr m)
    \<and> (AdRequest_of a = Inr m \<longrightarrow>
        (\<forall>x \<in> set (ad_requests d). ad_client_id x = ad_client_id a \<longrightarrow>
           length (filter (\<lambda>y. ad_client_id y = ad_client_id a \<and> ad_created_at x < ad_created_at y)
                     (ad_requests d)) < 1000 \<longrightarrow>
           ad_other_info x \<noteq> None) \<longrightarrow>
        length (filter (\<lambda>x. ad_client_id x = ad_client_id a \<and> ad_created_at a \<le> ad_created_at x)
                  (ad_requests d)) \<le> 1000 \<longrightarrow>
        m \<in> set (returned (get_ad_requests d c1)))
    \<and> (AdRequest_of a = Inr m \<longrightarrow>
        (\<forall>x \<in> set (ad_requests d).
           length (filter (\<lambda>y. ad_created_at x < ad_created_at y) (ad_requests d)) < 1000 \<longrightarrow>
           ad_other_info x \<noteq> None) \<longrightarrow>
        length (filter (\<lambda>x. ad_created_at a \<le> ad_created_at x) (ad_requests d)) \<le> 1000 \<longrightarrow>
        m \<in> set (returned (get_ad_requests d adm)))"
proof -
  let ?ads = "ad_requests d"
  have get1: "AdRequest_of a = Inr m \<longrightarrow> get_ad_request d (ad_id a) c1 = Inr m"
    using find_one_distinct_where [OF ids a, of "\<lambda>x. ad_client_id x = tk_user_id c1"]
      owner client1
    by (simp add: get_ad_request_def respond_def)
  have get2: "get_ad_request d (ad_id a) c2 = Inl (HTTPException 404 ''Ad request not found'')"
    using find_one_distinct_where [OF ids a, of "\<lambda>x. ad_client_id x = tk_user_id c2"]
      other client2
    by (simp add: get_ad_request_def)
  have get3: "AdRequest_of a = Inr m \<longrightarrow> get_ad_request d (ad_id a) adm = Inr m"
    using find_one_distinct [OF ids a] admin
    by (simp add: get_ad_request_def respond_def)
  have absent: "missing \<notin> ad_id ` set ?ads \<longrightarrow>
        get_ad_request d missing c2 = get_ad_request d (ad_id a) c2"
  proof
    assume "missing \<notin> ad_id ` set ?ads"
    then have "\<forall>x \<in> set ?ads. \<not> (ad_id x = missing \<and> ad_client_id x = tk_user_id c2)"
      by (auto simp: image_iff)
    then have "find_one (\<lambda>x. ad_id x = missing \<and> ad_client_id x = tk_user_id c2) ?ads = None"
      by (simp add: find_one_None_iff)
    with client2 show "get_ad_request d missing c2 = get_ad_request d (ad_id a) c2"
      unfolding get2 by (simp add: get_ad_request_def)
  qed
  have list1: "AdRequest_of a = Inr m \<longrightarrow>
        (\<forall>x \<in> set ?ads. ad_client_id x = ad_client_id a \<longrightarrow>
           length (filter (\<lambda>y. ad_client_id y = ad_client_id a \<and> ad_created_at x < ad_created_at y)
                     ?ads) < 1000 \<longrightarrow>
           ad_other_info x \<noteq> None) \<longrightarrow>
        length (filter (\<lambda>x. ad_client_id x = ad_client_id a \<and> ad_created_at a \<le> ad_created_at x)
                  ?ads) \<le> 1000 \<longrightarrow>
        m \<in> set (returned (get_ad_requests d c1))"
  proof (intro impI)
    assume model: "AdRequest_of a = Inr m"
    assume valid: "\<forall>x \<in> set ?ads. ad_client_id x = ad_client_id a \<longrightarrow>
           length (filter (\<lambda>y. ad_client_id y = ad_client_id a \<and> ad_created_at x < ad_created_at y)
                     ?ads) < 1000 \<longrightarrow>
           ad_other_info x \<noteq> None"
      and few: "length (filter (\<lambda>x. ad_client_id x = ad_client_id a
                  \<and> ad_created_at a \<le> ad_created_at x) ?ads) \<le> 1000"
    let ?mine = "filter (\<lambda>x. tk_role c1 = ''admin'' \<or> ad_client_id x = tk_user_id c1) ?ads"
    let ?page = "to_list 1000 (sort_desc ad_created_at ?mine)"
    have mine: "?mine = filter (\<lambda>x. ad_client_id x = ad_client_id a) ?ads"
      using client1 owner by simp
    from a have "a \<in> set ?mine" unfolding mine by simp
    moreover from few have "length (filter (\<lambda>x. ad_created_at a \<le> ad_created_at x) ?mine) \<le> 1000"
      unfolding mine by (simp add: conj_commute)
    ultimately have in_page: "a \<in> set ?page" by (rule newest_first_kept)
    have sub: "set ?page \<subseteq> set ?mine" by (rule page_subset)
    have "\<exists>y. AdRequest_of x = Inr y" if "x \<in> set ?page" for x
    proof -
      from that sub have "x \<in> set ?mine" by blast
      then have "x \<in> set ?ads" and "ad_client_id x = ad_client_id a"
        unfolding mine by simp_all
      moreover from that
      have "length (filter (\<lambda>y. ad_created_at x < ad_created_at y) ?mine) < 1000"
        by (rule page_member_rank)
      then have "length (filter (\<lambda>y. ad_client_id y = ad_client_id a
                    \<and> ad_created_at x < ad_created_at y) ?ads) < 1000"
        unfolding mine by (simp add: conj_commute)
      ultimately have "ad_other_info x \<noteq> None" using valid by blast
      then show ?thesis by (rule AdRequest_of_valid)
    qed
    then have "\<forall>x \<in> set ?page. \<exists>y. AdRequest_of x = Inr y" by blast
    from returned_target [OF this in_page model]
    show "m \<in> set (returned (get_ad_requests d c1))"
      by (simp add: get_ad_requests_page)
  qed
  have list3: "AdRequest_of a = Inr m \<longrightarrow>
        (\<forall>x \<in> set ?ads.
           length (filter (\<lambda>y. ad_created_at x < ad_created_at y) ?ads) < 1000 \<longrightarrow>
           ad_other_info x \<noteq> None) \<longrightarrow>
        length (filter (\<lambda>x. ad_created_at a \<le> ad_created_at x) ?ads) \<le> 1000 \<longrightarrow>
        m \<in> set (returned (get_ad_requests d adm))"
  proof (intro impI)
    assume model: "AdRequest_of a = Inr m"
    assume valid: "\<forall>x \<in> set ?ads.
           length (filter (\<lambda>y. ad_created_at x < ad_created_at y) ?ads) < 1000 \<longrightarrow>
           ad_other_info x \<noteq> None"
      and few: "length (filter (\<lambda>x. ad_created_at a \<le> ad_created_at x) ?ads) \<le> 1000"
    let ?all = "filter (\<lambda>x. tk_role adm = ''admin'' \<or> ad_client_id x = tk_user_id adm) ?ads"
    let ?page = "to_list 1000 (sort_desc ad_created_at ?all)"
    have all: "?all = ?ads" using admin by simp
    from a few have in_page: "a \<in> set ?page"
      unfolding all by (rule newest_first_kept)
    have sub: "set ?page \<subseteq> set ?ads" unfolding all by (rule page_subset)
    have "\<exists>y. AdRequest_of x = Inr y" if "x \<in> set ?page" for x
    proof -
      from that sub have "x \<in> set ?ads" by blast
      moreover from that
      have "length (filter (\<lambda>y. ad_created_at x < ad_created_at y) ?ads) < 1000"
        unfolding all by (rule page_member_rank)
      ultimately have "ad_other_info x \<noteq> None" using valid by blast
      then show ?thesis by (rule AdRequest_of_valid)
    qed
    then have "\<forall>x \<in> set ?page. \<exists>y. AdRequest_of x = Inr y" by blast
    from returned_target [OF this in_page model]
    show "m \<in> set (returned (get_ad_requests d adm))"
      by (simp add: get_ad_requests_page)
  qed
  have list2: "ad_id a \<notin> ar_id ` set (returned (get_ad_requests d c2))"
  proof
    let ?theirs = "filter (\<lambda>x. tk_role c2 = ''admin'' \<or> ad_client_id x = tk_user_id c2) ?ads"
    let ?page = "to_list 1000 (sort_desc ad_created_at ?theirs)"
    assume "ad_id a \<in> ar_id ` set (returned (get_ad_requests d c2))"
    then obtain y where y: "y \<in> set (returned (get_ad_requests d c2))" and same: "ar_id y = ad_id a"
      by (auto simp: image_iff)
    from y have "y \<in> set (returned (respond (comprehension AdRequest_of ?page)))"
      by (simp add: get_ad_requests_page)
    from returned_source [OF this]
    obtain x where x: "x \<in> set ?page" and xy: "AdRequest_of x = Inr y"
      by blast
    have "set ?page \<subseteq> set ?theirs" by (rule page_subset)
    with x client2 have stored: "x \<in> set ?ads" and theirs: "ad_client_id x = tk_user_id c2"
      by auto
    from xy same have "ad_id x = ad_id a"
      using AdRequest_of_fields by fastforce
    with ids a stored have "x = a" by (rule same_key_same_doc)
    with theirs other show False by simp
  qed
  show ?thesis
    by (intro conjI) (fact get2 absent list2 get1 get3 list1 list3)+
qed

theorem ad_request_visibility_witness:
  "alice_ad \<in> set (ad_requests shop_db) \<and> AdRequest_of alice_ad = Inr alice_ad_model
   \<and> tk_user_id alice = ad_client_id alice_ad \<and> tk_user_id bob \<noteq> ad_client_id alice_ad
   \<and> get_ad_request shop_db (ad_id alice_ad) alice = Inr alice_ad_model
   \<and> alice_ad_model \<in> set (returned (get_ad_requests shop_db alice))
   \<and> get_ad_request shop_db (ad_id alice_ad) bob = Inl (HTTPException 404 ''Ad request not found'')
   \<and> get_ad_request shop_db ''ad-none'' bob = Inl (HTTPException 404 ''Ad request not found'')
   \<and> ad_id alice_ad \<notin> ar_id ` set (returned (get_ad_requests shop_db bob))
   \<and> get_ad_request shop_db (ad_id alice_ad) admin_caller = Inr alice_ad_model
   \<and> alice_ad_model \<in> set (returned (get_ad_requests shop_db admin_caller))"
proof -
  have a: "alice_ad \<in> set (ad_requests shop_db)" by (simp add: shop_db_def)
  have ids: "distinct (map ad_id (ad_requests shop_db))" by (simp add: shop_db_def)
  have model: "AdRequest_of alice_ad = Inr alice_ad_model"
    by (simp add: AdRequest_of_def alice_ad_def alice_ad_model_def)
  have owner: "tk_user_id alice = ad_client_id alice_ad" by (simp add: alice_def alice_ad_def)
  have client1: "tk_role alice \<noteq> ''admin''" by (simp add: alice_def)
  have other: "tk_user_id bob \<noteq> ad_client_id alice_ad" by (simp add: bob_def alice_ad_def)
  have client2: "tk_role bob \<noteq> ''admin''" by (simp add: bob_def)
  have admin: "tk_role admin_caller = ''admin''" by (simp add: admin_caller_def)
  have valid: "\<forall>x \<in> set (ad_requests shop_db).
           length (filter (\<lambda>y. ad_created_at x < ad_created_at y) (ad_requests shop_db)) < 1000 \<longrightarrow>
           ad_other_info x \<noteq> None"
    and valid_mine: "\<forall>x \<in> set (ad_requests shop_db). ad_client_id x = ad_client_id alice_ad \<longrightarrow>
           length (filter (\<lambda>y. ad_client_id y = ad_client_id alice_ad
                     \<and> ad_created_at x < ad_created_at y) (ad_requests shop_db)) < 1000 \<longrightarrow>
           ad_other_info x \<noteq> None"
    by (simp_all add: shop_db_def alice_ad_def)
  have few: "length (filter (\<lambda>x. ad_created_at alice_ad \<le> ad_created_at x) (ad_requests shop_db)) \<le> 1000"
    and few_mine: "length (filter (\<lambda>x. ad_client_id x = ad_client_id alice_ad
            \<and> ad_created_at alice_ad \<le> ad_created_at x) (ad_requests shop_db)) \<le> 1000"
    by (simp_all add: shop_db_def)
  have missing: "''ad-none'' \<notin> ad_id ` set (ad_requests shop_db)"
    by (simp add: shop_db_def alice_ad_def)
  note inst = ad_request_visibility [OF a ids owner client1 other client2 admin,
      where m = alice_ad_model and missing = "''ad-none''"]
  from inst model valid_mine few_mine have "alice_ad_model \<in> set (returned (get_ad_requests shop_db alice))"
    by blast
  moreover from inst model valid few
  have "alice_ad_model \<in> set (returned (get_ad_requests shop_db admin_caller))"
    by blast
  moreover from inst missing
  have "get_ad_request shop_db ''ad-none'' bob = Inl (HTTPException 404 ''Ad request not found'')"
    by simp
  ultimately show ?thesis
    using inst a model owner other by simp
qed

text \<open>
  Without the bound the statement fails: in the store where Alice owns 1001 ad requests,
  her list and the administrator's list both return 1000 ad requests, and the oldest
  is not among them. Without text notes throughout it fails as well: in the store where
  Alice owns an ad request with text notes and a newer one with null notes, she can
  fetch the first, but her list and the administrator's list both answer 500.
\<close>

theorem ad_request_beyond_page_counterexample:
  "campaign_ad 0 \<in> set (ad_requests campaign_db)
   \<and> distinct (map ad_id (ad_requests campaign_db))
   \<and> ad_client_id (campaign_ad 0) = tk_user_id alice
   \<and> tk_role alice = ''client'' \<and> tk_role admin_caller = ''admin''
   \<and> length (returned (get_ad_requests campaign_db alice)) = 1000
   \<and> ad_id (campaign_ad 0) \<notin> ar_id ` set (returned (get_ad_requests campaign_db alice))
   \<and> length (returned (get_ad_requests campaign_db admin_caller)) = 1000
   \<and> ad_id (campaign_ad 0) \<notin> ar_id ` set (returned (get_ad_requests campaign_db admin_caller))
   \<and> ad_requests mixed_db = [alice_ad, alice_null_ad]
   \<and> AdRequest_of alice_ad = Inr alice_ad_model
   \<and> get_ad_request mixed_db (ad_id alice_ad) alice = Inr alice_ad_model
   \<and> get_ad_requests mixed_db alice = Inl (Unhandled ValidationError)
   \<and> get_ad_requests mixed_db admin_caller = Inl (Unhandled ValidationError)"
proof -
  have admin_sees_all:
    "filter (\<lambda>a. tk_role admin_caller = ''admin'' \<or> ad_client_id a = tk_user_id admin_caller)
       (ad_requests campaign_db) = ad_requests campaign_db"
    by (simp add: admin_caller_def)
  have stored: "campaign_ad 0 \<in> set (ad_requests campaign_db)"
    by (simp add: campaign_db_def)
  have owned: "ad_client_id (campaign_ad 0) = tk_user_id alice"
    by (simp add: campaign_ad_def alice_def)
  have roles: "tk_role alice = ''client''" "tk_role admin_caller = ''admin''"
    by (simp_all add: alice_def admin_caller_def)
  have full1: "length (returned (get_ad_requests campaign_db alice)) = 1000"
    by (rule campaign_page_full) (rule campaign_all_alice)
  have out1: "ad_id (campaign_ad 0) \<notin> ar_id ` set (returned (get_ad_requests campaign_db alice))"
    by (rule campaign_oldest_left_out) (rule campaign_all_alice)
  have full2: "length (returned (get_ad_requests campaign_db admin_caller)) = 1000"
    using admin_sees_all by (rule campaign_page_full)
  have out2: "ad_id (campaign_ad 0)
      \<notin> ar_id ` set (returned (get_ad_requests campaign_db admin_caller))"
    using admin_sees_all by (rule campaign_oldest_left_out)
  have mixed: "ad_requests mixed_db = [alice_ad, alice_null_ad]"
    by (simp add: mixed_db_def)
  have model: "AdRequest_of alice_ad = Inr alice_ad_model"
    by (simp add: AdRequest_of_def alice_ad_def alice_ad_model_def)
  have fetched: "get_ad_request mixed_db (ad_id alice_ad) alice = Inr alice_ad_model"
    using model
    by (simp add: get_ad_request_def find_one_def mixed respond_def alice_def alice_ad_def)
  have null: "AdRequest_of alice_null_ad = Inl ValidationError"
    by (simp add: AdRequest_of_def alice_null_ad_def)
  have newer: "ad_created_at alice_ad \<le> ad_created_at alice_null_ad"
    by (simp add: alice_ad_def alice_null_ad_def)
  have page: "to_list 1000 (sort_desc ad_created_at [alice_ad, alice_null_ad])
                = [alice_null_ad, alice_ad]"
    using newer by (simp add: to_list_def sort_desc_def)
  have mine: "filter (\<lambda>a. tk_role alice = ''admin'' \<or> ad_client_id a = tk_user_id alice)
                [alice_ad, alice_null_ad] = [alice_ad, alice_null_ad]"
    by (simp add: alice_def alice_ad_def alice_null_ad_def)
  have all: "filter (\<lambda>a. tk_role admin_caller = ''admin'' \<or> ad_client_id a = tk_user_id admin_caller)
                [alice_ad, alice_null_ad] = [alice_ad, alice_null_ad]"
    by (simp add: admin_caller_def)
  have failed1: "get_ad_requests mixed_db alice = Inl (Unhandled ValidationError)"
    unfolding get_ad_requests_page mixed mine page
    by (simp add: null respond_def)
  have failed2: "get_ad_requests mixed_db admin_caller = Inl (Unhandled ValidationError)"
    unfolding get_ad_requests_page mixed all page
    by (simp add: null respond_def)
  show ?thesis
    by (intro conjI)
      (fact stored campaign_ids_distinct owned roles full1 out1 full2 out2 mixed model fetched
         failed1 failed2)+
qed

section \<open>Where the documents come from\<close>

text \<open>
  An ad request is stored with its creator as owner; a payment is created only for an
  ad request that the store has and the caller owns. An ad request created with null
  notes is stored although its creation answers 500, and from then on every listing
  whose page shows it answers 500 as well.
\<close>

lemma create_ad_request_stored:
  assumes user: "find_one (\<lambda>u. u_id u = tk_user_id caller) (users d) = Some user"
  shows "ad_requests (fst (create_ad_request d new_id now ad_data caller))
           = ad_requests d @
             [\<lparr>ad_id = new_id, ad_client_id = tk_user_id caller, ad_client_name = u_name user,
               ad_client_email = u_email user, ad_location = arc_location ad_data,
               ad_product_names = arc_product_names ad_data,
               ad_other_info = arc_other_info ad_data, ad_photos = [],
               ad_payment_type = arc_payment_type ad_data, ad_status = ''pending'',
               ad_created_at = now\<rparr>]"
  using user by (simp add: create_ad_request_def insert_one_def Let_def)

lemma null_notes_stored_and_refused:
  assumes user: "find_one (\<lambda>u. u_id u = tk_user_id caller) (users d) = Some user"
    and null: "arc_other_info ad_data = None"
  shows "snd (create_ad_request d new_id now ad_data caller) = Inl (Unhandled ValidationError)"
    and "length (ad_requests (fst (create_ad_request d new_id now ad_data caller)))
           = Suc (length (ad_requests d))"
  using user null
  by (simp_all add: create_ad_request_def insert_one_def Let_def AdRequest_of_def respond_def)

lemma comprehension_first_failure:
  "x \<in> set xs \<Longrightarrow> f x = Inl e \<Longrightarrow> \<exists>e'. comprehension f xs = Inl e'"
  by (induction xs) (auto split: sum.splits)

lemma create_payment_refers_to_own_ad:
  assumes "snd (create_payment d new_id now payment_data caller) = Inr p"
  shows "\<exists>ad \<in> set (ad_requests d). ad_id ad = pay_ad_request_id p
            \<and> ad_client_id ad = tk_user_id caller"
proof (cases "find_one (\<lambda>a. ad_id a = pc_ad_request_id payment_data
                          \<and> ad_client_id a = tk_user_id caller) (ad_requests d)")
  case None
  with assms show ?thesis by (simp add: create_payment_def)
next
  case (Some ad)
  then have "ad \<in> set (ad_requests d)" and "ad_id ad = pc_ad_request_id payment_data"
    and "ad_client_id ad = tk_user_id caller"
    unfolding find_one_def by (auto simp: find_Some_iff)
  moreover from assms Some have "pay_ad_request_id p = pc_ad_request_id payment_data"
    by (auto simp: create_payment_def Let_def)
  ultimately show ?thesis by auto
qed

lemma AdRequest_of_failure: "AdRequest_of x = Inl e \<Longrightarrow> e = ValidationError"
  by (auto simp: AdRequest_of_def split: option.splits)

lemma comprehension_failure_source:
  "comprehension f xs = Inl e \<Longrightarrow> \<exists>x \<in> set xs. f x = Inl e"
  by (induction xs) (auto split: sum.splits)

lemma listing_refuses_null_notes:
  assumes listed: "x \<in> set (to_list 1000 (sort_desc ad_created_at
                     (filter (\<lambda>a. tk_role u = ''admin'' \<or> ad_client_id a = tk_user_id u)
                        (ad_requests d))))"
    and null: "ad_other_info x = None"
  shows "get_ad_requests d u = Inl (Unhandled ValidationError)"
proof -
  let ?page = "to_list 1000 (sort_desc ad_created_at
                 (filter (\<lambda>a. tk_role u = ''admin'' \<or> ad_client_id a = tk_user_id u)
                    (ad_requests d)))"
  from null have "AdRequest_of x = Inl ValidationError"
    by (simp add: AdRequest_of_def)
  from comprehension_first_failure [where f = AdRequest_of, OF listed this]
  obtain e where e: "comprehension AdRequest_of ?page = Inl e" ..
  from comprehension_failure_source [where f = AdRequest_of, OF e]
  obtain y where "AdRequest_of y = Inl e" by (elim bexE)
  then have "e = ValidationError" by (rule AdRequest_of_failure)
  with e have "respond (comprehension AdRequest_of ?page) = Inl (Unhandled ValidationError)"
    by (simp add: respond_def)
  then show ?thesis
    by (simp only: get_ad_requests_page)
qed

end
